theory Spec2Isabelle
  imports Main "HOL-Library.Sublist"
begin

section \<open>Host values\<close>

text \<open>
  The chatbot is Google Apps Script (JavaScript). Three variants of the server file are
  modelled: the base file (bounded retry, plain trimming, errors rethrown), the extended
  file (adds restoring the history from the log sheet, batched logging, the trimming that
  sets system turns aside, and the mapping of errors to user-facing strings) and the
  minimal file. Functions that are the same text in the base and the extended file are
  modelled once; where the two differ the function takes the variant as its first argument.

  A JavaScript string is modelled by its UTF-8 byte sequence. For well-formed strings
  \<open>s.includes(p)\<close> on UTF-16 code units and the substring test on UTF-8 bytes agree,
  and a string is empty in one encoding iff it is empty in the other; no other string
  operation of the source is modelled. The Japanese literals of the source are therefore
  written as byte lists, with the meaning given beside each.
\<close>

fun startsWith :: "string \<Rightarrow> string \<Rightarrow> bool" where
  "startsWith s [] = True"
| "startsWith [] (p # ps) = False"
| "startsWith (c # cs) (p # ps) = (c = p \<and> startsWith cs ps)"

text \<open>\<open>s.includes(pat)\<close>\<close>

fun includes_js :: "string \<Rightarrow> string \<Rightarrow> bool" where
  "includes_js [] pat = (pat = [])"
| "includes_js (c # cs) pat = (startsWith (c # cs) pat \<or> includes_js cs pat)"

text \<open>Decimal rendering of a number inside a template literal.\<close>

definition digitChar :: "nat \<Rightarrow> char" where
  "digitChar d = ''0123456789'' ! d"

fun digits :: "nat \<Rightarrow> string" where
  "digits n = (if n < 10 then [digitChar n] else digits (n div 10) @ [digitChar (n mod 10)])"

declare digits.simps [simp del]

text \<open>
  Values that cross the boundary to the host: arguments of \<open>processMessage\<close>, the parsed
  response of the endpoint, cell values. Only the truthiness of a number is ever used, so
  numbers are integers. An object is the association list of its own properties.
\<close>

datatype json = JUndefined | JNull | JBool bool | JNum int | JStr string
  | JArr "json list" | JObj "(string \<times> json) list"

fun truthy :: "json \<Rightarrow> bool" where
  "truthy JUndefined = False"
| "truthy JNull = False"
| "truthy (JBool b) = b"
| "truthy (JNum n) = (n \<noteq> 0)"
| "truthy (JStr s) = (s \<noteq> [])"
| "truthy (JArr xs) = True"
| "truthy (JObj kvs) = True"

fun nullish :: "json \<Rightarrow> bool" where
  "nullish JUndefined = True"
| "nullish JNull = True"
| "nullish v = False"

fun isString :: "json \<Rightarrow> bool" where
  "isString (JStr s) = True"
| "isString v = False"

text \<open>\<open>v.name\<close> on a value that is neither null nor undefined.\<close>

fun member_js :: "json \<Rightarrow> string \<Rightarrow> json" where
  "member_js (JObj kvs) name = (case map_of kvs name of None \<Rightarrow> JUndefined | Some v \<Rightarrow> v)"
| "member_js (JArr xs) name = (if name = ''length'' then JNum (int (length xs)) else JUndefined)"
| "member_js (JStr s) name = (if name = ''length'' then JNum (int (length s)) else JUndefined)"
| "member_js v name = JUndefined"

text \<open>\<open>v[0]\<close> on a value that is neither null nor undefined.\<close>

fun element0 :: "json \<Rightarrow> json" where
  "element0 (JObj kvs) = (case map_of kvs ''0'' of None \<Rightarrow> JUndefined | Some v \<Rightarrow> v)"
| "element0 (JArr xs) = (case xs of [] \<Rightarrow> JUndefined | x # rest \<Rightarrow> x)"
| "element0 (JStr s) = (case s of [] \<Rightarrow> JUndefined | c # rest \<Rightarrow> JStr [c])"
| "element0 v = JUndefined"

text \<open>\<open>v?.name\<close>: undefined when \<open>v\<close> is null or undefined.\<close>

definition optMember :: "json \<Rightarrow> string \<Rightarrow> json" where
  "optMember v name = (if nullish v then JUndefined else member_js v name)"

section \<open>Errors\<close>

datatype jserror = JSError (ename: string) (emessage: string)

text \<open>\<open>new Error(msg)\<close>\<close>

definition Error :: "string \<Rightarrow> jserror" where
  "Error msg = JSError ''Error'' msg"

text \<open>\<open>error.toString()\<close>\<close>

definition toString :: "jserror \<Rightarrow> string" where
  "toString e =
     (if ename e = [] then emessage e
      else if emessage e = [] then ename e
      else ename e @ '': '' @ emessage e)"

text \<open>Reading a property of null or undefined with a plain dot.\<close>

definition TypeError_read :: "string \<Rightarrow> jserror" where
  "TypeError_read name =
     JSError ''TypeError'' (''Cannot read properties of undefined (reading '' @ name @ '')'')"

definition dot :: "json \<Rightarrow> string \<Rightarrow> jserror + json" where
  "dot v name = (if nullish v then Inl (TypeError_read name) else Inr (member_js v name))"

definition at0 :: "json \<Rightarrow> jserror + json" where
  "at0 v = (if nullish v then Inl (TypeError_read ''0'') else Inr (element0 v))"

section \<open>Configuration\<close>

text \<open>\<open>CONFIG.CONVERSATION.MAX_HISTORY_LENGTH\<close>\<close>

definition MAX_HISTORY_LENGTH :: nat where
  "MAX_HISTORY_LENGTH = 10"

text \<open>
  \<open>CONFIG.ERRORS\<close>. In order: "API key is not set", "the call of the Gemini API
  failed", "no response from the Gemini API", "the user id is invalid", "the message is
  invalid"; then the six user-facing texts of the extended file: rate limit, service
  unavailable, network error, timeout, API problem, generic error.
\<close>

definition NO_API_KEY :: string where
  "NO_API_KEY = ''API'' @ [CHR 0xE3, CHR 0x82, CHR 0xAD, CHR 0xE3, CHR 0x83, CHR 0xBC,
     CHR 0xE3, CHR 0x81, CHR 0x8C, CHR 0xE8, CHR 0xA8, CHR 0xAD, CHR 0xE5, CHR 0xAE, CHR 0x9A,
     CHR 0xE3, CHR 0x81, CHR 0x95, CHR 0xE3, CHR 0x82, CHR 0x8C, CHR 0xE3, CHR 0x81, CHR 0xA6,
     CHR 0xE3, CHR 0x81, CHR 0x84, CHR 0xE3, CHR 0x81, CHR 0xBE, CHR 0xE3, CHR 0x81, CHR 0x9B,
     CHR 0xE3, CHR 0x82, CHR 0x93]"

definition API_CALL_FAILED :: string where
  "API_CALL_FAILED = ''Gemini API'' @ [CHR 0xE3, CHR 0x81, CHR 0xAE, CHR 0xE5, CHR 0x91,
     CHR 0xBC, CHR 0xE3, CHR 0x81, CHR 0xB3, CHR 0xE5, CHR 0x87, CHR 0xBA, CHR 0xE3, CHR 0x81,
     CHR 0x97, CHR 0xE3, CHR 0x81, CHR 0xAB, CHR 0xE5, CHR 0xA4, CHR 0xB1, CHR 0xE6, CHR 0x95,
     CHR 0x97, CHR 0xE3, CHR 0x81, CHR 0x97, CHR 0xE3, CHR 0x81, CHR 0xBE, CHR 0xE3, CHR 0x81,
     CHR 0x97, CHR 0xE3, CHR 0x81, CHR 0x9F]"

definition NO_RESPONSE :: string where
  "NO_RESPONSE = ''Gemini API'' @ [CHR 0xE3, CHR 0x81, CHR 0x8B, CHR 0xE3, CHR 0x82, CHR 0x89,
     CHR 0xE3, CHR 0x81, CHR 0xAE, CHR 0xE5, CHR 0xBF, CHR 0x9C, CHR 0xE7, CHR 0xAD, CHR 0x94,
     CHR 0xE3, CHR 0x81, CHR 0x8C, CHR 0xE3, CHR 0x81, CHR 0x82, CHR 0xE3, CHR 0x82, CHR 0x8A,
     CHR 0xE3, CHR 0x81, CHR 0xBE, CHR 0xE3, CHR 0x81, CHR 0x9B, CHR 0xE3, CHR 0x82,
     CHR 0x93]"

definition INVALID_USER_ID :: string where
  "INVALID_USER_ID = [CHR 0xE3, CHR 0x83, CHR 0xA6, CHR 0xE3, CHR 0x83, CHR 0xBC, CHR 0xE3,
     CHR 0x82, CHR 0xB6, CHR 0xE3, CHR 0x83, CHR 0xBC] @ ''ID'' @ [CHR 0xE3, CHR 0x81,
     CHR 0x8C, CHR 0xE7, CHR 0x84, CHR 0xA1, CHR 0xE5, CHR 0x8A, CHR 0xB9, CHR 0xE3, CHR 0x81,
     CHR 0xA7, CHR 0xE3, CHR 0x81, CHR 0x99]"

definition INVALID_MESSAGE :: string where
  "INVALID_MESSAGE = [CHR 0xE3, CHR 0x83, CHR 0xA1, CHR 0xE3, CHR 0x83, CHR 0x83, CHR 0xE3,
     CHR 0x82, CHR 0xBB, CHR 0xE3, CHR 0x83, CHR 0xBC, CHR 0xE3, CHR 0x82, CHR 0xB8, CHR 0xE3,
     CHR 0x81, CHR 0x8C, CHR 0xE7, CHR 0x84, CHR 0xA1, CHR 0xE5, CHR 0x8A, CHR 0xB9, CHR 0xE3,
     CHR 0x81, CHR 0xA7, CHR 0xE3, CHR 0x81, CHR 0x99]"

definition USER_RATE_LIMIT :: string where
  "USER_RATE_LIMIT = [CHR 0xE7, CHR 0x8F, CHR 0xBE, CHR 0xE5, CHR 0x9C, CHR 0xA8, CHR 0xE3,
     CHR 0x83, CHR 0xAA, CHR 0xE3, CHR 0x82, CHR 0xAF, CHR 0xE3, CHR 0x82, CHR 0xA8, CHR 0xE3,
     CHR 0x82, CHR 0xB9, CHR 0xE3, CHR 0x83, CHR 0x88, CHR 0xE3, CHR 0x81, CHR 0x8C, CHR 0xE5,
     CHR 0xA4, CHR 0x9A, CHR 0xE3, CHR 0x81, CHR 0x84, CHR 0xE3, CHR 0x81, CHR 0x9F, CHR 0xE3,
     CHR 0x82, CHR 0x81, CHR 0xE3, CHR 0x80, CHR 0x81, CHR 0xE5, CHR 0xB0, CHR 0x91, CHR 0xE3,
     CHR 0x80, CHR 0x85, CHR 0xE3, CHR 0x81, CHR 0x8A, CHR 0xE5, CHR 0xBE, CHR 0x85, CHR 0xE3,
     CHR 0x81, CHR 0xA1, CHR 0xE3, CHR 0x81, CHR 0x8F, CHR 0xE3, CHR 0x81, CHR 0xA0, CHR 0xE3,
     CHR 0x81, CHR 0x95, CHR 0xE3, CHR 0x81, CHR 0x84, CHR 0xE3, CHR 0x80,
     CHR 0x82] @ ''30'' @ [CHR 0xE7, CHR 0xA7, CHR 0x92, CHR 0xE5, CHR 0xBE, CHR 0x8C,
     CHR 0xE3, CHR 0x81, CHR 0xAB, CHR 0xE5, CHR 0x86, CHR 0x8D, CHR 0xE5, CHR 0xBA, CHR 0xA6,
     CHR 0xE3, CHR 0x81, CHR 0x8A, CHR 0xE8, CHR 0xA9, CHR 0xA6, CHR 0xE3, CHR 0x81, CHR 0x97,
     CHR 0xE3, CHR 0x81, CHR 0x8F, CHR 0xE3, CHR 0x81, CHR 0xA0, CHR 0xE3, CHR 0x81, CHR 0x95,
     CHR 0xE3, CHR 0x81, CHR 0x84, CHR 0xE3, CHR 0x80, CHR 0x82]"

definition USER_SERVICE_UNAVAILABLE :: string where
  "USER_SERVICE_UNAVAILABLE = ''AI'' @ [CHR 0xE3, CHR 0x82, CHR 0xB5, CHR 0xE3, CHR 0x83,
     CHR 0xBC, CHR 0xE3, CHR 0x83, CHR 0x93, CHR 0xE3, CHR 0x82, CHR 0xB9, CHR 0xE3, CHR 0x81,
     CHR 0x8C, CHR 0xE4, CHR 0xB8, CHR 0x80, CHR 0xE6, CHR 0x99, CHR 0x82, CHR 0xE7, CHR 0x9A,
     CHR 0x84, CHR 0xE3, CHR 0x81, CHR 0xAB, CHR 0xE5, CHR 0x88, CHR 0xA9, CHR 0xE7, CHR 0x94,
     CHR 0xA8, CHR 0xE3, CHR 0x81, CHR 0xA7, CHR 0xE3, CHR 0x81, CHR 0x8D, CHR 0xE3, CHR 0x81,
     CHR 0xBE, CHR 0xE3, CHR 0x81, CHR 0x9B, CHR 0xE3, CHR 0x82, CHR 0x93, CHR 0xE3, CHR 0x80,
     CHR 0x82, CHR 0xE6, CHR 0x95, CHR 0xB0, CHR 0xE5, CHR 0x88, CHR 0x86, CHR 0xE5, CHR 0xBE,
     CHR 0x8C, CHR 0xE3, CHR 0x81, CHR 0xAB, CHR 0xE5, CHR 0x86, CHR 0x8D, CHR 0xE5, CHR 0xBA,
     CHR 0xA6, CHR 0xE3, CHR 0x81, CHR 0x8A, CHR 0xE8, CHR 0xA9, CHR 0xA6, CHR 0xE3, CHR 0x81,
     CHR 0x97, CHR 0xE3, CHR 0x81, CHR 0x8F, CHR 0xE3, CHR 0x81, CHR 0xA0, CHR 0xE3, CHR 0x81,
     CHR 0x95, CHR 0xE3, CHR 0x81, CHR 0x84, CHR 0xE3, CHR 0x80, CHR 0x82]"

definition USER_NETWORK_ERROR :: string where
  "USER_NETWORK_ERROR = [CHR 0xE3, CHR 0x83, CHR 0x8D, CHR 0xE3, CHR 0x83, CHR 0x83, CHR 0xE3,
     CHR 0x83, CHR 0x88, CHR 0xE3, CHR 0x83, CHR 0xAF, CHR 0xE3, CHR 0x83, CHR 0xBC, CHR 0xE3,
     CHR 0x82, CHR 0xAF, CHR 0xE3, CHR 0x82, CHR 0xA8, CHR 0xE3, CHR 0x83, CHR 0xA9, CHR 0xE3,
     CHR 0x83, CHR 0xBC, CHR 0xE3, CHR 0x81, CHR 0x8C, CHR 0xE7, CHR 0x99, CHR 0xBA, CHR 0xE7,
     CHR 0x94, CHR 0x9F, CHR 0xE3, CHR 0x81, CHR 0x97, CHR 0xE3, CHR 0x81, CHR 0xBE, CHR 0xE3,
     CHR 0x81, CHR 0x97, CHR 0xE3, CHR 0x81, CHR 0x9F, CHR 0xE3, CHR 0x80, CHR 0x82, CHR 0xE3,
     CHR 0x82, CHR 0xA4, CHR 0xE3, CHR 0x83, CHR 0xB3, CHR 0xE3, CHR 0x82, CHR 0xBF, CHR 0xE3,
     CHR 0x83, CHR 0xBC, CHR 0xE3, CHR 0x83, CHR 0x8D, CHR 0xE3, CHR 0x83, CHR 0x83, CHR 0xE3,
     CHR 0x83, CHR 0x88, CHR 0xE6, CHR 0x8E, CHR 0xA5, CHR 0xE7, CHR 0xB6, CHR 0x9A, CHR 0xE3,
     CHR 0x82, CHR 0x92, CHR 0xE7, CHR 0xA2, CHR 0xBA, CHR 0xE8, CHR 0xAA, CHR 0x8D, CHR 0xE3,
     CHR 0x81, CHR 0x97, CHR 0xE3, CHR 0x81, CHR 0xA6, CHR 0xE3, CHR 0x81, CHR 0x8F, CHR 0xE3,
     CHR 0x81, CHR 0xA0, CHR 0xE3, CHR 0x81, CHR 0x95, CHR 0xE3, CHR 0x81, CHR 0x84, CHR 0xE3,
     CHR 0x80, CHR 0x82]"

definition USER_TIMEOUT :: string where
  "USER_TIMEOUT = [CHR 0xE5, CHR 0xBF, CHR 0x9C, CHR 0xE7, CHR 0xAD, CHR 0x94, CHR 0xE6,
     CHR 0x99, CHR 0x82, CHR 0xE9, CHR 0x96, CHR 0x93, CHR 0xE3, CHR 0x81, CHR 0x8C, CHR 0xE9,
     CHR 0x95, CHR 0xB7, CHR 0xE3, CHR 0x81, CHR 0x99, CHR 0xE3, CHR 0x81, CHR 0x8E, CHR 0xE3,
     CHR 0x81, CHR 0xBE, CHR 0xE3, CHR 0x81, CHR 0x99, CHR 0xE3, CHR 0x80, CHR 0x82, CHR 0xE3,
     CHR 0x82, CHR 0x82, CHR 0xE3, CHR 0x81, CHR 0x86, CHR 0xE4, CHR 0xB8, CHR 0x80, CHR 0xE5,
     CHR 0xBA, CHR 0xA6, CHR 0xE3, CHR 0x81, CHR 0x8A, CHR 0xE8, CHR 0xA9, CHR 0xA6, CHR 0xE3,
     CHR 0x81, CHR 0x97, CHR 0xE3, CHR 0x81, CHR 0x8F, CHR 0xE3, CHR 0x81, CHR 0xA0, CHR 0xE3,
     CHR 0x81, CHR 0x95, CHR 0xE3, CHR 0x81, CHR 0x84, CHR 0xE3, CHR 0x80, CHR 0x82]"

definition USER_API_ERROR :: string where
  "USER_API_ERROR = ''AI API'' @ [CHR 0xE3, CHR 0x81, CHR 0xAB, CHR 0xE5, CHR 0x95, CHR 0x8F,
     CHR 0xE9, CHR 0xA1, CHR 0x8C, CHR 0xE3, CHR 0x81, CHR 0x8C, CHR 0xE7, CHR 0x99, CHR 0xBA,
     CHR 0xE7, CHR 0x94, CHR 0x9F, CHR 0xE3, CHR 0x81, CHR 0x97, CHR 0xE3, CHR 0x81, CHR 0xA6,
     CHR 0xE3, CHR 0x81, CHR 0x84, CHR 0xE3, CHR 0x81, CHR 0xBE, CHR 0xE3, CHR 0x81, CHR 0x99,
     CHR 0xE3, CHR 0x80, CHR 0x82, CHR 0xE7, CHR 0xAE, CHR 0xA1, CHR 0xE7, CHR 0x90, CHR 0x86,
     CHR 0xE8, CHR 0x80, CHR 0x85, CHR 0xE3, CHR 0x81, CHR 0xAB, CHR 0xE3, CHR 0x81, CHR 0x8A,
     CHR 0xE5, CHR 0x95, CHR 0x8F, CHR 0xE3, CHR 0x81, CHR 0x84, CHR 0xE5, CHR 0x90, CHR 0x88,
     CHR 0xE3, CHR 0x82, CHR 0x8F, CHR 0xE3, CHR 0x81, CHR 0x9B, CHR 0xE3, CHR 0x81, CHR 0x8F,
     CHR 0xE3, CHR 0x81, CHR 0xA0, CHR 0xE3, CHR 0x81, CHR 0x95, CHR 0xE3, CHR 0x81, CHR 0x84,
     CHR 0xE3, CHR 0x80, CHR 0x82]"

definition USER_GENERIC_ERROR :: string where
  "USER_GENERIC_ERROR = [CHR 0xE3, CHR 0x82, CHR 0xA8, CHR 0xE3, CHR 0x83, CHR 0xA9, CHR 0xE3,
     CHR 0x83, CHR 0xBC, CHR 0xE3, CHR 0x81, CHR 0x8C, CHR 0xE7, CHR 0x99, CHR 0xBA, CHR 0xE7,
     CHR 0x94, CHR 0x9F, CHR 0xE3, CHR 0x81, CHR 0x97, CHR 0xE3, CHR 0x81, CHR 0xBE, CHR 0xE3,
     CHR 0x81, CHR 0x97, CHR 0xE3, CHR 0x81, CHR 0x9F, CHR 0xE3, CHR 0x80, CHR 0x82, CHR 0xE3,
     CHR 0x81, CHR 0x97, CHR 0xE3, CHR 0x81, CHR 0xB0, CHR 0xE3, CHR 0x82, CHR 0x89, CHR 0xE3,
     CHR 0x81, CHR 0x8F, CHR 0xE3, CHR 0x81, CHR 0x97, CHR 0xE3, CHR 0x81, CHR 0xA6, CHR 0xE3,
     CHR 0x81, CHR 0x8B, CHR 0xE3, CHR 0x82, CHR 0x89, CHR 0xE5, CHR 0x86, CHR 0x8D, CHR 0xE5,
     CHR 0xBA, CHR 0xA6, CHR 0xE3, CHR 0x81, CHR 0x8A, CHR 0xE8, CHR 0xA9, CHR 0xA6, CHR 0xE3,
     CHR 0x81, CHR 0x97, CHR 0xE3, CHR 0x81, CHR 0x8F, CHR 0xE3, CHR 0x81, CHR 0xA0, CHR 0xE3,
     CHR 0x81, CHR 0x95, CHR 0xE3, CHR 0x81, CHR 0x84, CHR 0xE3, CHR 0x80, CHR 0x82]"

section \<open>Conversations\<close>

record part =
  "text" :: json

record turn =
  role :: string
  parts :: "part list"

datatype variant = Base | Extended

text \<open>\<open>history.push({role: role, parts: [{text: text}]})\<close>\<close>

definition addMessageToHistory :: "turn list \<Rightarrow> string \<Rightarrow> json \<Rightarrow> turn list" where
  "addMessageToHistory history r t = history @ [\<lparr>role = r, parts = [\<lparr>text = t\<rparr>]\<rparr>]"

text \<open>\<open>xs.slice(start)\<close>: a negative start counts from the end.\<close>

definition slice_js :: "'a list \<Rightarrow> int \<Rightarrow> 'a list" where
  "slice_js xs start =
     (let n = int (length xs);
          k = (if start < 0 then max (n + start) 0 else min start n)
      in drop (nat k) xs)"

text \<open>
  The base file removes the oldest turns with \<open>history.splice(0, history.length - MAX)\<close>;
  the extended file sets the turns of role system aside and slices the others.
\<close>

fun trimConversationHistory :: "variant \<Rightarrow> turn list \<Rightarrow> turn list" where
  "trimConversationHistory Base history =
     (if length history > MAX_HISTORY_LENGTH
      then drop (length history - MAX_HISTORY_LENGTH) history
      else history)"
| "trimConversationHistory Extended history =
     (if length history > MAX_HISTORY_LENGTH
      then (let systemMessages = filter (\<lambda>msg. role msg = ''system'') history;
                conversationMessages = filter (\<lambda>msg. role msg \<noteq> ''system'') history;
                trimmedConversation =
                  slice_js conversationMessages
                    (int (length conversationMessages) - int MAX_HISTORY_LENGTH)
            in systemMessages @ trimmedConversation)
      else history)"

section \<open>The log sheet\<close>

text \<open>
  A row of the log sheet below its header: the columns user id, role and message. The
  timestamp and the token estimate of a row are not modelled; no claim reads them.
\<close>

record logrow =
  rowUserId :: string
  rowRole :: string
  rowMessage :: json

text \<open>
  The loop of \<open>restoreHistoryFromLogSheet\<close>,
  \<open>for (let i = data.length - 1; i >= 0 && userMessages.length < limit; i--)\<close>.
  The counter of the model is \<open>i + 1\<close>.
\<close>

fun restoreLoop :: "string \<Rightarrow> nat \<Rightarrow> logrow list \<Rightarrow> nat \<Rightarrow> turn list \<Rightarrow> turn list" where
  "restoreLoop userId limit data 0 userMessages = userMessages"
| "restoreLoop userId limit data (Suc i) userMessages =
     (if length userMessages < limit
      then (let row = data ! i
            in restoreLoop userId limit data i
                 (if rowUserId row = userId \<and> truthy (rowMessage row)
                  then (if rowRole row \<noteq> ''system''
                        then \<lparr>role = rowRole row, parts = [\<lparr>text = rowMessage row\<rparr>]\<rparr> # userMessages
                        else userMessages)
                  else userMessages))
      else userMessages)"

definition restoreHistoryFromLogSheet :: "string \<Rightarrow> nat \<Rightarrow> logrow list \<Rightarrow> turn list" where
  "restoreHistoryFromLogSheet userId limit data =
     (if data = [] then [] else restoreLoop userId limit data (length data) [])"

section \<open>The world outside the script\<close>

text \<open>
  The request body built by \<open>buildApiPayload\<close>; the constant \<open>generationConfig\<close> is
  left out.
\<close>

record payload =
  systemInstruction :: turn
  contents :: "turn list"

text \<open>What the script does to the outside, in order: \<open>Utilities.sleep(ms)\<close> and
  \<open>UrlFetchApp.fetch(url, options)\<close>.\<close>

datatype event = Sleep nat | Fetch string payload

text \<open>
  What one \<open>UrlFetchApp.fetch\<close> does: it returns a response (status code, and the outcome of
  \<open>JSON.parse\<close> on its body, which is read only for status 200), or it throws.
  With \<open>muteHttpExceptions\<close> a status other than 200 is a response, not an exception.
\<close>

datatype fetch_outcome = Response nat "jserror + json" | FetchThrows jserror

text \<open>
  The mapping from user ids to conversations, read as the object's own properties. A user
  id that names a property every object inherits (such as \<open>constructor\<close>) is outside the
  model.
\<close>

type_synonym store = "string \<rightharpoonup> turn list"

text \<open>
  The state the script reads and writes. \<open>cache\<close> is the entry
  \<open>CONFIG.CACHE.KEY\<close> of the script cache (the stored text is the JSON of the mapping, and
  \<open>JSON.parse\<close> of \<open>JSON.stringify\<close> gives the mapping back; a property holding
  undefined is dropped by the one and read as undefined after the other). \<open>sheet\<close>
  holds the rows of the log sheet below the header; reading and appending are taken to
  succeed. \<open>apiKeyProperty\<close> is the script property \<open>apikey\<close>, \<open>promptSheet\<close> the value
  of the prompt cell (\<open>None\<close> when the prompt sheet does not exist).
  \<open>logBuffer\<close>, \<open>apiKeyCached\<close> (\<open>performanceCache.apiKey\<close>) and \<open>promptCached\<close>
  (\<open>performanceCache.prompt\<close>, present while \<open>promptExpiry\<close> lies in the future; the clock
  is not modelled) are the module variables of the extended file. Its counters in
  \<open>performanceMetrics\<close> are written and never read by the functions modelled here; they
  are left out. \<open>events\<close> is the trace of sleeps and fetches so far.
\<close>

record world =
  cache :: "store option"
  sheet :: "logrow list"
  logBuffer :: "logrow list"
  apiKeyProperty :: "string option"
  apiKeyCached :: "string option"
  promptSheet :: "json option"
  promptCached :: "json option"
  events :: "event list"

definition BATCH_LOG_ENABLED :: bool where
  "BATCH_LOG_ENABLED = True"

definition BATCH_LOG_SIZE :: nat where
  "BATCH_LOG_SIZE = 10"

definition CACHE_PROMPT :: bool where
  "CACHE_PROMPT = True"

definition BASE_URL :: string where
  "BASE_URL = ''https://generativelanguage.googleapis.com/v1beta/models''"

definition MODEL :: string where
  "MODEL = ''gemini-2.5-flash''"

text \<open>The name of the prompt sheet ("prompt") and the two halves of "sheet ... not found".\<close>

definition PROMPT :: string where
  "PROMPT = [CHR 0xE3, CHR 0x83, CHR 0x97, CHR 0xE3, CHR 0x83, CHR 0xAD, CHR 0xE3, CHR 0x83,
     CHR 0xB3, CHR 0xE3, CHR 0x83, CHR 0x97, CHR 0xE3, CHR 0x83, CHR 0x88]"

definition SHEET_HEAD :: string where
  "SHEET_HEAD = [CHR 0xE3, CHR 0x82, CHR 0xB7, CHR 0xE3, CHR 0x83, CHR 0xBC, CHR 0xE3,
     CHR 0x83, CHR 0x88, CHR 0xE3, CHR 0x80, CHR 0x8C]"

definition SHEET_TAIL :: string where
  "SHEET_TAIL = [CHR 0xE3, CHR 0x80, CHR 0x8D, CHR 0xE3, CHR 0x81, CHR 0x8C, CHR 0xE8,
     CHR 0xA6, CHR 0x8B, CHR 0xE3, CHR 0x81, CHR 0xA4, CHR 0xE3, CHR 0x81, CHR 0x8B, CHR 0xE3,
     CHR 0x82, CHR 0x8A, CHR 0xE3, CHR 0x81, CHR 0xBE, CHR 0xE3, CHR 0x81, CHR 0x9B, CHR 0xE3,
     CHR 0x82, CHR 0x93]"

text \<open>
  The pieces of the messages built in \<open>callGeminiAPI\<close>: "API transient error",
  "): will retry", "the API call failed ... times: ". \<open>ERROR_TAG\<close> is "[error] ", the
  prefix of the row logged by the extended \<open>processMessage\<close>; \<open>API_KEY_PROBLEM\<close> is its
  text "there is a problem with the API key setting".
\<close>

definition TRANSIENT_MARK :: string where
  "TRANSIENT_MARK = ''API'' @ [CHR 0xE4, CHR 0xB8, CHR 0x80, CHR 0xE6, CHR 0x99, CHR 0x82,
     CHR 0xE3, CHR 0x82, CHR 0xA8, CHR 0xE3, CHR 0x83, CHR 0xA9, CHR 0xE3, CHR 0x83,
     CHR 0xBC]"

definition TRANSIENT_TAIL :: string where
  "TRANSIENT_TAIL = ''): '' @ [CHR 0xE3, CHR 0x83, CHR 0xAA, CHR 0xE3, CHR 0x83, CHR 0x88,
     CHR 0xE3, CHR 0x83, CHR 0xA9, CHR 0xE3, CHR 0x82, CHR 0xA4, CHR 0xE3, CHR 0x81, CHR 0x97,
     CHR 0xE3, CHR 0x81, CHR 0xBE, CHR 0xE3, CHR 0x81, CHR 0x99]"

definition EXHAUSTED_HEAD :: string where
  "EXHAUSTED_HEAD = ''API'' @ [CHR 0xE5, CHR 0x91, CHR 0xBC, CHR 0xE3, CHR 0x81, CHR 0xB3,
     CHR 0xE5, CHR 0x87, CHR 0xBA, CHR 0xE3, CHR 0x81, CHR 0x97, CHR 0xE3, CHR 0x81,
     CHR 0x8C]"

definition EXHAUSTED_TAIL :: string where
  "EXHAUSTED_TAIL = [CHR 0xE5, CHR 0x9B, CHR 0x9E, CHR 0xE5, CHR 0xA4, CHR 0xB1, CHR 0xE6,
     CHR 0x95, CHR 0x97, CHR 0xE3, CHR 0x81, CHR 0x97, CHR 0xE3, CHR 0x81, CHR 0xBE, CHR 0xE3,
     CHR 0x81, CHR 0x97, CHR 0xE3, CHR 0x81, CHR 0x9F] @ '': ''"

definition ERROR_TAG :: string where
  "ERROR_TAG = ''['' @ [CHR 0xE3, CHR 0x82, CHR 0xA8, CHR 0xE3, CHR 0x83, CHR 0xA9, CHR 0xE3,
     CHR 0x83, CHR 0xBC] @ ''] ''"

definition API_KEY_PROBLEM :: string where
  "API_KEY_PROBLEM = ''API'' @ [CHR 0xE3, CHR 0x82, CHR 0xAD, CHR 0xE3, CHR 0x83, CHR 0xBC,
     CHR 0xE3, CHR 0x81, CHR 0xAE, CHR 0xE8, CHR 0xA8, CHR 0xAD, CHR 0xE5, CHR 0xAE, CHR 0x9A,
     CHR 0xE3, CHR 0x81, CHR 0xAB, CHR 0xE5, CHR 0x95, CHR 0x8F, CHR 0xE9, CHR 0xA1, CHR 0x8C,
     CHR 0xE3, CHR 0x81, CHR 0x8C, CHR 0xE3, CHR 0x81, CHR 0x82, CHR 0xE3, CHR 0x82, CHR 0x8A,
     CHR 0xE3, CHR 0x81, CHR 0xBE, CHR 0xE3, CHR 0x81, CHR 0x99, CHR 0xE3, CHR 0x80, CHR 0x82,
     CHR 0xE7, CHR 0xAE, CHR 0xA1, CHR 0xE7, CHR 0x90, CHR 0x86, CHR 0xE8, CHR 0x80, CHR 0x85,
     CHR 0xE3, CHR 0x81, CHR 0xAB, CHR 0xE3, CHR 0x81, CHR 0x8A, CHR 0xE5, CHR 0x95, CHR 0x8F,
     CHR 0xE3, CHR 0x81, CHR 0x84, CHR 0xE5, CHR 0x90, CHR 0x88, CHR 0xE3, CHR 0x82, CHR 0x8F,
     CHR 0xE3, CHR 0x81, CHR 0x9B, CHR 0xE3, CHR 0x81, CHR 0x8F, CHR 0xE3, CHR 0x81, CHR 0xA0,
     CHR 0xE3, CHR 0x81, CHR 0x95, CHR 0xE3, CHR 0x81, CHR 0x84, CHR 0xE3, CHR 0x80,
     CHR 0x82]"

definition maxRetries :: nat where
  "maxRetries = 3"

definition baseDelay :: nat where
  "baseDelay = 1000"

section \<open>Configuration reads\<close>

definition readApiKeyProperty :: "world \<Rightarrow> jserror + string" where
  "readApiKeyProperty w =
     (case apiKeyProperty w of
        None \<Rightarrow> Inl (Error NO_API_KEY)
      | Some apiKey \<Rightarrow> if apiKey = [] then Inl (Error NO_API_KEY) else Inr apiKey)"

fun getApiKey :: "variant \<Rightarrow> world \<Rightarrow> (jserror + string) \<times> world" where
  "getApiKey Base w = (readApiKeyProperty w, w)"
| "getApiKey Extended w =
     (if (case apiKeyCached w of None \<Rightarrow> False | Some k \<Rightarrow> k \<noteq> [])
      then (Inr (the (apiKeyCached w)), w)
      else (case readApiKeyProperty w of
              Inl e \<Rightarrow> (Inl e, w)
            | Inr apiKey \<Rightarrow> (Inr apiKey, w\<lparr>apiKeyCached := Some apiKey\<rparr>)))"

definition getGeminiUrl :: "variant \<Rightarrow> world \<Rightarrow> (jserror + string) \<times> world" where
  "getGeminiUrl v w =
     (case getApiKey v w of
        (Inl e, w') \<Rightarrow> (Inl e, w')
      | (Inr apiKey, w') \<Rightarrow>
          (Inr (BASE_URL @ ''/'' @ MODEL @ '':generateContent?key='' @ apiKey), w'))"

definition readPromptSheet :: "world \<Rightarrow> jserror + json" where
  "readPromptSheet w =
     (case promptSheet w of
        None \<Rightarrow> Inl (Error (SHEET_HEAD @ PROMPT @ SHEET_TAIL))
      | Some p \<Rightarrow> Inr p)"

fun getSystemPrompt :: "variant \<Rightarrow> world \<Rightarrow> (jserror + json) \<times> world" where
  "getSystemPrompt Base w = (readPromptSheet w, w)"
| "getSystemPrompt Extended w =
     (if CACHE_PROMPT \<and> (case promptCached w of None \<Rightarrow> False | Some p \<Rightarrow> truthy p)
      then (Inr (the (promptCached w)), w)
      else (case readPromptSheet w of
              Inl e \<Rightarrow> (Inl e, w)
            | Inr p \<Rightarrow> (Inr p, if CACHE_PROMPT then w\<lparr>promptCached := Some p\<rparr> else w)))"

section \<open>Logging\<close>

definition flushLogBuffer :: "world \<Rightarrow> world" where
  "flushLogBuffer w =
     (if logBuffer w = [] then w
      else w\<lparr>sheet := sheet w @ logBuffer w, logBuffer := []\<rparr>)"

fun logChat :: "variant \<Rightarrow> string \<Rightarrow> string \<Rightarrow> json \<Rightarrow> world \<Rightarrow> world" where
  "logChat Base userId r message w =
     w\<lparr>sheet := sheet w @ [\<lparr>rowUserId = userId, rowRole = r, rowMessage = message\<rparr>]\<rparr>"
| "logChat Extended userId r message w =
     (let rowData = \<lparr>rowUserId = userId, rowRole = r, rowMessage = message\<rparr>
      in if BATCH_LOG_ENABLED
         then (let w1 = w\<lparr>logBuffer := logBuffer w @ [rowData]\<rparr>
               in if length (logBuffer w1) \<ge> BATCH_LOG_SIZE then flushLogBuffer w1 else w1)
         else w\<lparr>sheet := sheet w @ [rowData]\<rparr>)"

section \<open>The history store\<close>

definition saveConversationHistory :: "store \<Rightarrow> world \<Rightarrow> world" where
  "saveConversationHistory conversationHistory w = w\<lparr>cache := Some conversationHistory\<rparr>"

text \<open>
  The base file takes no argument. In the extended file a missing cache entry is rebuilt
  from the log sheet for the given user and written back at once.
\<close>

fun getConversationHistory :: "variant \<Rightarrow> string option \<Rightarrow> world \<Rightarrow> store \<times> world" where
  "getConversationHistory Base userId w =
     (case cache w of None \<Rightarrow> (Map.empty, w) | Some cached \<Rightarrow> (cached, w))"
| "getConversationHistory Extended userId w =
     (case cache w of
        Some cached \<Rightarrow> (cached, w)
      | None \<Rightarrow>
          (case userId of
             None \<Rightarrow> (Map.empty, w)
           | Some u \<Rightarrow>
               if u = [] then (Map.empty, w)
               else (let restoredHistory =
                           restoreHistoryFromLogSheet u MAX_HISTORY_LENGTH (sheet w)
                     in if restoredHistory \<noteq> []
                        then (let conversationHistory = [u \<mapsto> restoredHistory]
                              in (conversationHistory,
                                  saveConversationHistory conversationHistory w))
                        else (Map.empty, w))))"

definition clearConversationHistory :: "variant \<Rightarrow> string option \<Rightarrow> world \<Rightarrow> world" where
  "clearConversationHistory v userId w =
     (if (case userId of None \<Rightarrow> False | Some u \<Rightarrow> u \<noteq> [])
      then (case getConversationHistory v userId w of
              (history, w1) \<Rightarrow>
                if history (the userId) \<noteq> None
                then saveConversationHistory (history((the userId) := None)) w1
                else w1)
      else w\<lparr>cache := None\<rparr>)"

text \<open>
  \<open>SessionManager.importSession\<close> of the extended file (reached from the menu item
  \<open>importSessionDialog\<close>), as far as the conversation cache goes. The session record is
  saved under a key of its own and is not modelled; when the text does not parse or has no
  session the function throws before it writes. A history that is present and not empty is
  stored for the user id of the session as it is, whatever its length and whatever the roles
  and parts of its turns: \<open>sessionUserId\<close> and \<open>history\<close> are the two values read from the
  imported text, the history taken to be a list of turn-shaped objects.
\<close>

definition importSession :: "string \<Rightarrow> turn list \<Rightarrow> world \<Rightarrow> world" where
  "importSession sessionUserId history w =
     (if history \<noteq> []
      then (case getConversationHistory Extended None w of
              (conversationHistory, w1) \<Rightarrow>
                saveConversationHistory (conversationHistory(sessionUserId \<mapsto> history)) w1)
      else w)"

section \<open>The client of the endpoint\<close>

definition buildApiPayload :: "variant \<Rightarrow> turn list \<Rightarrow> world \<Rightarrow> (jserror + payload) \<times> world" where
  "buildApiPayload v history w =
     (case getSystemPrompt v w of
        (Inl e, w') \<Rightarrow> (Inl e, w')
      | (Inr prompt, w') \<Rightarrow>
          (Inr \<lparr>systemInstruction = \<lparr>role = ''model'', parts = [\<lparr>text = prompt\<rparr>]\<rparr>,
                contents = history\<rparr>, w'))"

definition thenE :: "jserror + 'a \<Rightarrow> ('a \<Rightarrow> jserror + 'b) \<Rightarrow> jserror + 'b" where
  "thenE r f = (case r of Inl e \<Rightarrow> Inl e | Inr x \<Rightarrow> f x)"

text \<open>
  The two tests use optional chaining after \<open>responseJson?.candidates\<close> and after
  \<open>responseJson.candidates[0]\<close>; the second is evaluated only when the first passes. The
  returned expression reads every property with a plain dot.
\<close>

definition extractResponseText :: "json \<Rightarrow> jserror + json" where
  "extractResponseText responseJson =
     (if \<not> truthy (optMember (optMember responseJson ''candidates'') ''length'')
      then Inl (Error NO_RESPONSE)
      else if \<not> truthy (optMember (optMember (optMember
                 (element0 (member_js responseJson ''candidates'')) ''content'') ''parts'') ''length'')
      then Inl (Error NO_RESPONSE)
      else thenE (dot responseJson ''candidates'') (\<lambda>candidates.
           thenE (at0 candidates) (\<lambda>candidate.
           thenE (dot candidate ''content'') (\<lambda>content.
           thenE (dot content ''parts'') (\<lambda>ps.
           thenE (at0 ps) (\<lambda>p. dot p ''text''))))))"

text \<open>
  The body of the \<open>try\<close> of one attempt ends in one of three ways: it returns the reply,
  it records a transient error and continues with the next attempt, or it throws.
\<close>

datatype attempt_result = Returned json | Transient jserror | Thrown jserror

definition callGeminiAPI_try ::
  "variant \<Rightarrow> (nat \<Rightarrow> fetch_outcome) \<Rightarrow> payload \<Rightarrow> nat \<Rightarrow> world \<Rightarrow> attempt_result \<times> world" where
  "callGeminiAPI_try v net p attempt w =
     (let w1 = (if attempt > 0
                then w\<lparr>events := events w @ [Sleep (baseDelay * 2 ^ (attempt - 1))]\<rparr>
                else w)
      in case getGeminiUrl v w1 of
           (Inl e, w2) \<Rightarrow> (Thrown e, w2)
         | (Inr url, w2) \<Rightarrow>
             (let w3 = w2\<lparr>events := events w2 @ [Fetch url p]\<rparr>
              in case net attempt of
                   FetchThrows e \<Rightarrow> (Thrown e, w3)
                 | Response responseCode body \<Rightarrow>
                     if responseCode = 200
                     then (case thenE body extractResponseText of
                             Inl e \<Rightarrow> (Thrown e, w3)
                           | Inr t \<Rightarrow> (Returned t, w3))
                     else if responseCode = 429 \<or> responseCode = 503
                     then (Transient (Error (TRANSIENT_MARK @ '' ('' @ digits responseCode
                                               @ TRANSIENT_TAIL)), w3)
                     else (Thrown (Error (API_CALL_FAILED @ '': '' @ digits responseCode)), w3)))"

text \<open>
  The \<open>catch\<close> of one attempt: an error whose text names the network is retried, any other
  error is thrown again unless its message carries the transient mark.
\<close>

definition isNetworkError :: "jserror \<Rightarrow> bool" where
  "isNetworkError e \<longleftrightarrow>
     includes_js (toString e) ''UrlFetchApp'' \<or> includes_js (toString e) ''Network''
     \<or> includes_js (toString e) ''Timeout''"

datatype catch_result = Rethrow jserror | NextAttempt

definition callGeminiAPI_catch :: "jserror \<Rightarrow> catch_result" where
  "callGeminiAPI_catch e =
     (if isNetworkError e then NextAttempt
      else if \<not> includes_js (emessage e) TRANSIENT_MARK then Rethrow e
      else NextAttempt)"

function callGeminiAPI_loop ::
  "variant \<Rightarrow> (nat \<Rightarrow> fetch_outcome) \<Rightarrow> payload \<Rightarrow> nat \<Rightarrow> jserror option \<Rightarrow> world
     \<Rightarrow> (jserror + json) \<times> world" where
  "callGeminiAPI_loop v net p attempt lastError w =
     (if attempt < maxRetries
      then (case callGeminiAPI_try v net p attempt w of
              (Returned t, w') \<Rightarrow> (Inr t, w')
            | (Transient e, w') \<Rightarrow> callGeminiAPI_loop v net p (Suc attempt) (Some e) w'
            | (Thrown e, w') \<Rightarrow>
                (case callGeminiAPI_catch e of
                   Rethrow e' \<Rightarrow> (Inl e', w')
                 | NextAttempt \<Rightarrow> callGeminiAPI_loop v net p (Suc attempt) (Some e) w'))
      else (case lastError of
              None \<Rightarrow> (Inl (TypeError_read ''message''), w)
            | Some e \<Rightarrow>
                (Inl (Error (EXHAUSTED_HEAD @ digits maxRetries @ EXHAUSTED_TAIL @ emessage e)),
                 w)))"
  by pat_completeness auto
termination
  by (relation "measure (\<lambda>(v, net, p, attempt, lastError, w). maxRetries - attempt)") auto

declare callGeminiAPI_loop.simps [simp del]

definition callGeminiAPI ::
  "variant \<Rightarrow> (nat \<Rightarrow> fetch_outcome) \<Rightarrow> string \<Rightarrow> turn list \<Rightarrow> world \<Rightarrow> (jserror + json) \<times> world" where
  "callGeminiAPI v net userId history w =
     (case buildApiPayload v history w of
        (Inl e, w') \<Rightarrow> (Inl e, w')
      | (Inr p, w') \<Rightarrow> callGeminiAPI_loop v net p 0 None w')"

section \<open>The orchestrator\<close>

text \<open>The body of the \<open>try\<close> of \<open>processMessage\<close>, entered with validated strings.\<close>

definition processMessage_try ::
  "variant \<Rightarrow> (nat \<Rightarrow> fetch_outcome) \<Rightarrow> string \<Rightarrow> string \<Rightarrow> world \<Rightarrow> (jserror + json) \<times> world" where
  "processMessage_try v net userId message w =
     (case getConversationHistory v (Some userId) w of
        (conversationHistory, w1) \<Rightarrow>
          (let history0 = (case conversationHistory userId of None \<Rightarrow> [] | Some h \<Rightarrow> h);
               history1 = addMessageToHistory history0 ''user'' (JStr message);
               w2 = logChat v userId ''user'' (JStr message) w1;
               history2 = trimConversationHistory v history1
           in case callGeminiAPI v net userId history2 w2 of
                (Inl e, w3) \<Rightarrow> (Inl e, w3)
              | (Inr response, w3) \<Rightarrow>
                  (let history3 = addMessageToHistory history2 ''model'' response;
                       w4 = logChat v userId ''model'' response w3;
                       w5 = saveConversationHistory (conversationHistory(userId \<mapsto> history3)) w4;
                       w6 = (if v = Extended \<and> BATCH_LOG_ENABLED \<and> logBuffer w5 \<noteq> []
                             then flushLogBuffer w5 else w5)
                   in (Inr response, w6))))"

text \<open>
  The \<open>catch\<close> of \<open>processMessage\<close>. The base file logs to the console and throws the error
  again. The extended file picks a user-facing text by the first pattern the message
  contains, throws again on \<open>INVALID\<close>, and otherwise logs a system row and returns the text.
\<close>

fun processMessage_catch :: "variant \<Rightarrow> string \<Rightarrow> jserror \<Rightarrow> world \<Rightarrow> (jserror + json) \<times> world" where
  "processMessage_catch Base userId e w = (Inl e, w)"
| "processMessage_catch Extended userId e w =
     (let msg = emessage e;
          logged = (\<lambda>userMessage.
            (let w1 = logChat Extended userId ''system''
                        (JStr (ERROR_TAG @ (if msg \<noteq> [] then msg else ''Unknown error''))) w;
                 w2 = (if BATCH_LOG_ENABLED \<and> logBuffer w1 \<noteq> [] then flushLogBuffer w1 else w1)
             in (Inr (JStr userMessage), w2)))
      in if msg \<noteq> [] \<and> includes_js msg ''429'' then logged USER_RATE_LIMIT
         else if msg \<noteq> [] \<and> includes_js msg ''503'' then logged USER_SERVICE_UNAVAILABLE
         else if msg \<noteq> [] \<and> (includes_js msg ''Network'' \<or> includes_js msg ''UrlFetch'')
              then logged USER_NETWORK_ERROR
         else if msg \<noteq> [] \<and> includes_js msg ''Timeout'' then logged USER_TIMEOUT
         else if msg \<noteq> [] \<and> includes_js msg ''API'' then logged USER_API_ERROR
         else if msg \<noteq> [] \<and> includes_js msg ''API_KEY'' then logged API_KEY_PROBLEM
         else if msg \<noteq> [] \<and> includes_js msg ''INVALID'' then (Inl e, w)
         else logged USER_GENERIC_ERROR)"

declare processMessage_catch.simps [simp del]

fun stringOf :: "json \<Rightarrow> string" where
  "stringOf (JStr s) = s"
| "stringOf v = []"

definition processMessage ::
  "variant \<Rightarrow> (nat \<Rightarrow> fetch_outcome) \<Rightarrow> json \<Rightarrow> json \<Rightarrow> world \<Rightarrow> (jserror + json) \<times> world" where
  "processMessage v net userId message w =
     (if \<not> truthy userId \<or> \<not> isString userId then (Inl (Error INVALID_USER_ID), w)
      else if \<not> truthy message \<or> \<not> isString message then (Inl (Error INVALID_MESSAGE), w)
      else (case processMessage_try v net (stringOf userId) (stringOf message) w of
              (Inr response, w') \<Rightarrow> (Inr response, w')
            | (Inl e, w') \<Rightarrow> processMessage_catch v (stringOf userId) e w'))"

section \<open>The minimal file\<close>

text \<open>
  The minimal file keeps one cache entry per user (key \<open>chat_\<close> followed by the user id)
  holding turns of the shape \<open>{role, content}\<close>, writes to the same log sheet, and calls the
  endpoint once. It declares its settings as \<open>MINIMAL_MINIMAL_CONFIG\<close> and reads them as
  \<open>MINIMAL_CONFIG\<close>, a name no file of the repository declares. The binding of
  \<open>MINIMAL_CONFIG\<close> is therefore a parameter of every function that reads it: \<open>None\<close> is
  the repository as it stands, where evaluating the name throws a ReferenceError, and
  \<open>Some c\<close> is the script run with the name bound to \<open>c\<close>.
  The arguments of \<open>processMessage\<close> are strings, as its documentation says; it tests only
  their truthiness.
\<close>

record minimal_config =
  API_MODEL :: string
  API_BASE_URL :: string
  CACHE_DURATION :: nat
  MAX_HISTORY :: nat
  SHEETS_PROMPT :: string
  SHEETS_LOG :: string

text \<open>
  In order: the log sheet's name ("log"), "the user id or the message is invalid",
  "Gemini API error: ", "no valid response from the Gemini API", "the API key is not set
  ...", and the two default prompts.
\<close>

definition LOG_SHEET :: string where
  "LOG_SHEET = [CHR 0xE3, CHR 0x83, CHR 0xAD, CHR 0xE3, CHR 0x82, CHR 0xB0]"

definition MIN_INVALID :: string where
  "MIN_INVALID = [CHR 0xE3, CHR 0x83, CHR 0xA6, CHR 0xE3, CHR 0x83, CHR 0xBC, CHR 0xE3,
     CHR 0x82, CHR 0xB6, CHR 0xE3, CHR 0x83, CHR 0xBC] @ ''ID'' @ [CHR 0xE3, CHR 0x81,
     CHR 0xBE, CHR 0xE3, CHR 0x81, CHR 0x9F, CHR 0xE3, CHR 0x81, CHR 0xAF, CHR 0xE3, CHR 0x83,
     CHR 0xA1, CHR 0xE3, CHR 0x83, CHR 0x83, CHR 0xE3, CHR 0x82, CHR 0xBB, CHR 0xE3, CHR 0x83,
     CHR 0xBC, CHR 0xE3, CHR 0x82, CHR 0xB8, CHR 0xE3, CHR 0x81, CHR 0x8C, CHR 0xE7, CHR 0x84,
     CHR 0xA1, CHR 0xE5, CHR 0x8A, CHR 0xB9, CHR 0xE3, CHR 0x81, CHR 0xA7, CHR 0xE3, CHR 0x81,
     CHR 0x99]"

definition MIN_API_ERROR :: string where
  "MIN_API_ERROR = ''Gemini API '' @ [CHR 0xE3, CHR 0x82, CHR 0xA8, CHR 0xE3, CHR 0x83,
     CHR 0xA9, CHR 0xE3, CHR 0x83, CHR 0xBC] @ '': ''"

definition MIN_NO_RESPONSE :: string where
  "MIN_NO_RESPONSE = ''Gemini API'' @ [CHR 0xE3, CHR 0x81, CHR 0x8B, CHR 0xE3, CHR 0x82,
     CHR 0x89, CHR 0xE6, CHR 0x9C, CHR 0x89, CHR 0xE5, CHR 0x8A, CHR 0xB9, CHR 0xE3, CHR 0x81,
     CHR 0xAA, CHR 0xE5, CHR 0xBF, CHR 0x9C, CHR 0xE7, CHR 0xAD, CHR 0x94, CHR 0xE3, CHR 0x81,
     CHR 0x8C, CHR 0xE3, CHR 0x81, CHR 0x82, CHR 0xE3, CHR 0x82, CHR 0x8A, CHR 0xE3, CHR 0x81,
     CHR 0xBE, CHR 0xE3, CHR 0x81, CHR 0x9B, CHR 0xE3, CHR 0x82, CHR 0x93]"

definition MIN_NO_KEY :: string where
  "MIN_NO_KEY = ''API'' @ [CHR 0xE3, CHR 0x82, CHR 0xAD, CHR 0xE3, CHR 0x83, CHR 0xBC,
     CHR 0xE3, CHR 0x81, CHR 0x8C, CHR 0xE8, CHR 0xA8, CHR 0xAD, CHR 0xE5, CHR 0xAE, CHR 0x9A,
     CHR 0xE3, CHR 0x81, CHR 0x95, CHR 0xE3, CHR 0x82, CHR 0x8C, CHR 0xE3, CHR 0x81, CHR 0xA6,
     CHR 0xE3, CHR 0x81, CHR 0x84, CHR 0xE3, CHR 0x81, CHR 0xBE, CHR 0xE3, CHR 0x81, CHR 0x9B,
     CHR 0xE3, CHR 0x82, CHR 0x93, CHR 0xE3, CHR 0x80, CHR 0x82, CHR 0xE3, CHR 0x82, CHR 0xB9,
     CHR 0xE3, CHR 0x82, CHR 0xAF, CHR 0xE3, CHR 0x83, CHR 0xAA, CHR 0xE3, CHR 0x83, CHR 0x97,
     CHR 0xE3, CHR 0x83, CHR 0x88, CHR 0xE3, CHR 0x83, CHR 0x97, CHR 0xE3, CHR 0x83, CHR 0xAD,
     CHR 0xE3, CHR 0x83, CHR 0x91, CHR 0xE3, CHR 0x83, CHR 0x86, CHR 0xE3, CHR 0x82, CHR 0xA3,
     CHR 0xE3, CHR 0x81, CHR 0xAB] @ ''GEMINI_API_KEY'' @ [CHR 0xE3, CHR 0x82, CHR 0x92,
     CHR 0xE8, CHR 0xA8, CHR 0xAD, CHR 0xE5, CHR 0xAE, CHR 0x9A, CHR 0xE3, CHR 0x81, CHR 0x97,
     CHR 0xE3, CHR 0x81, CHR 0xA6, CHR 0xE3, CHR 0x81, CHR 0x8F, CHR 0xE3, CHR 0x81, CHR 0xA0,
     CHR 0xE3, CHR 0x81, CHR 0x95, CHR 0xE3, CHR 0x81, CHR 0x84, CHR 0xE3, CHR 0x80,
     CHR 0x82]"

definition MIN_PROMPT_DEFAULT :: string where
  "MIN_PROMPT_DEFAULT = [CHR 0xE3, CHR 0x81, CHR 0x82, CHR 0xE3, CHR 0x81, CHR 0xAA, CHR 0xE3,
     CHR 0x81, CHR 0x9F, CHR 0xE3, CHR 0x81, CHR 0xAF, CHR 0xE8, CHR 0xA6, CHR 0xAA, CHR 0xE5,
     CHR 0x88, CHR 0x87, CHR 0xE3, CHR 0x81, CHR 0xAA] @ ''AI'' @ [CHR 0xE3, CHR 0x82,
     CHR 0xA2, CHR 0xE3, CHR 0x82, CHR 0xB7, CHR 0xE3, CHR 0x82, CHR 0xB9, CHR 0xE3, CHR 0x82,
     CHR 0xBF, CHR 0xE3, CHR 0x83, CHR 0xB3, CHR 0xE3, CHR 0x83, CHR 0x88, CHR 0xE3, CHR 0x81,
     CHR 0xA7, CHR 0xE3, CHR 0x81, CHR 0x99, CHR 0xE3, CHR 0x80, CHR 0x82]"

definition MIN_PROMPT_INIT :: string where
  "MIN_PROMPT_INIT = [CHR 0xE3, CHR 0x81, CHR 0x82, CHR 0xE3, CHR 0x81, CHR 0xAA, CHR 0xE3,
     CHR 0x81, CHR 0x9F, CHR 0xE3, CHR 0x81, CHR 0xAF, CHR 0xE8, CHR 0xA6, CHR 0xAA, CHR 0xE5,
     CHR 0x88, CHR 0x87, CHR 0xE3, CHR 0x81, CHR 0xAA] @ ''AI'' @ [CHR 0xE3, CHR 0x82,
     CHR 0xA2, CHR 0xE3, CHR 0x82, CHR 0xB7, CHR 0xE3, CHR 0x82, CHR 0xB9, CHR 0xE3, CHR 0x82,
     CHR 0xBF, CHR 0xE3, CHR 0x83, CHR 0xB3, CHR 0xE3, CHR 0x83, CHR 0x88, CHR 0xE3, CHR 0x81,
     CHR 0xA7, CHR 0xE3, CHR 0x81, CHR 0x99, CHR 0xE3, CHR 0x80, CHR 0x82, CHR 0xE3, CHR 0x83,
     CHR 0xA6, CHR 0xE3, CHR 0x83, CHR 0xBC, CHR 0xE3, CHR 0x82, CHR 0xB6, CHR 0xE3, CHR 0x83,
     CHR 0xBC, CHR 0xE3, CHR 0x81, CHR 0xAE, CHR 0xE8, CHR 0xB3, CHR 0xAA, CHR 0xE5, CHR 0x95,
     CHR 0x8F, CHR 0xE3, CHR 0x81, CHR 0xAB, CHR 0xE4, CHR 0xB8, CHR 0x81, CHR 0xE5, CHR 0xAF,
     CHR 0xA7, CHR 0xE3, CHR 0x81, CHR 0xAB, CHR 0xE7, CHR 0xAD, CHR 0x94, CHR 0xE3, CHR 0x81,
     CHR 0x88, CHR 0xE3, CHR 0x81, CHR 0xA6, CHR 0xE3, CHR 0x81, CHR 0x8F, CHR 0xE3, CHR 0x81,
     CHR 0xA0, CHR 0xE3, CHR 0x81, CHR 0x95, CHR 0xE3, CHR 0x81, CHR 0x84, CHR 0xE3, CHR 0x80,
     CHR 0x82]"

definition MINIMAL_MINIMAL_CONFIG :: minimal_config where
  "MINIMAL_MINIMAL_CONFIG =
     \<lparr>API_MODEL = ''gemini-pro'',
      API_BASE_URL = ''https://generativelanguage.googleapis.com/v1beta/models'',
      CACHE_DURATION = 21600, MAX_HISTORY = 10,
      SHEETS_PROMPT = PROMPT, SHEETS_LOG = LOG_SHEET\<rparr>"

definition ReferenceError :: "string \<Rightarrow> jserror" where
  "ReferenceError name = JSError ''ReferenceError'' (name @ '' is not defined'')"

text \<open>Evaluating the identifier \<open>MINIMAL_CONFIG\<close>.\<close>

definition MINIMAL_CONFIG :: "minimal_config option \<Rightarrow> jserror + minimal_config" where
  "MINIMAL_CONFIG binding =
     (case binding of None \<Rightarrow> Inl (ReferenceError ''MINIMAL_CONFIG'') | Some c \<Rightarrow> Inr c)"

record minimal_turn =
  mrole :: string
  content :: json

text \<open>
  A response of the minimal file's single fetch carries its body text as well, which the
  error message quotes.
\<close>

datatype minimal_outcome = MResponse nat string "jserror + json" | MFetchThrows jserror

text \<open>
  \<open>chatCache\<close> maps a cache key to the parsed entry (only this script writes the entries,
  so they parse). \<open>promptValue\<close> is the prompt cell, \<open>None\<close> when the prompt sheet does
  not exist yet. \<open>fetched\<close> lists the URL and the messages of every request sent.
\<close>

record minimal_world =
  chatCache :: "string \<rightharpoonup> minimal_turn list"
  logRows :: "logrow list"
  geminiApiKey :: "string option"
  promptValue :: "json option"
  fetched :: "(string \<times> turn list) list"

definition getApiKey_minimal :: "minimal_world \<Rightarrow> jserror + string" where
  "getApiKey_minimal w =
     (case geminiApiKey w of
        None \<Rightarrow> Inl (Error MIN_NO_KEY)
      | Some apiKey \<Rightarrow> if apiKey = [] then Inl (Error MIN_NO_KEY) else Inr apiKey)"

definition getSystemPrompt_minimal ::
  "minimal_config option \<Rightarrow> minimal_world \<Rightarrow> (jserror + json) \<times> minimal_world" where
  "getSystemPrompt_minimal binding w =
     (case MINIMAL_CONFIG binding of
        Inl e \<Rightarrow> (Inl e, w)
      | Inr c \<Rightarrow>
          (case promptValue w of
             None \<Rightarrow> (Inr (JStr MIN_PROMPT_INIT), w\<lparr>promptValue := Some (JStr MIN_PROMPT_INIT)\<rparr>)
           | Some prompt \<Rightarrow> (Inr (if truthy prompt then prompt else JStr MIN_PROMPT_DEFAULT), w)))"

text \<open>
  \<open>logToSheet\<close> swallows every error raised inside it: the ReferenceError, and the
  TypeError of \<open>message.length\<close> on null or undefined.
\<close>

definition logToSheet ::
  "minimal_config option \<Rightarrow> string \<Rightarrow> string \<Rightarrow> json \<Rightarrow> minimal_world \<Rightarrow> minimal_world" where
  "logToSheet binding userId r message w =
     (case MINIMAL_CONFIG binding of
        Inl e \<Rightarrow> w
      | Inr c \<Rightarrow>
          if nullish message then w
          else w\<lparr>logRows := logRows w @ [\<lparr>rowUserId = userId, rowRole = r, rowMessage = message\<rparr>]\<rparr>)"

definition getConversationHistory_minimal :: "string \<Rightarrow> minimal_world \<Rightarrow> minimal_turn list" where
  "getConversationHistory_minimal userId w =
     (case chatCache w (''chat_'' @ userId) of None \<Rightarrow> [] | Some cached \<Rightarrow> cached)"

definition saveConversationHistory_minimal ::
  "minimal_config option \<Rightarrow> string \<Rightarrow> minimal_turn list \<Rightarrow> minimal_world
     \<Rightarrow> (jserror + unit) \<times> minimal_world" where
  "saveConversationHistory_minimal binding userId history w =
     (case MINIMAL_CONFIG binding of
        Inl e \<Rightarrow> (Inl e, w)
      | Inr c \<Rightarrow> (Inr (), w\<lparr>chatCache := (chatCache w)(''chat_'' @ userId \<mapsto> history)\<rparr>))"

text \<open>\<open>v?.[0]\<close>\<close>

definition optElement0 :: "json \<Rightarrow> json" where
  "optElement0 v = (if nullish v then JUndefined else element0 v)"

text \<open>The test and the read of the reply text in the minimal \<open>callGeminiAPI\<close>.\<close>

definition replyText_minimal :: "json \<Rightarrow> jserror + json" where
  "replyText_minimal json =
     thenE (dot json ''candidates'') (\<lambda>candidates.
       if \<not> truthy candidates
          \<or> \<not> truthy (optMember (optElement0 (optMember
                (optMember (element0 candidates) ''content'') ''parts'')) ''text'')
       then Inl (Error MIN_NO_RESPONSE)
       else thenE (at0 candidates) (\<lambda>candidate.
            thenE (dot candidate ''content'') (\<lambda>cont.
            thenE (dot cont ''parts'') (\<lambda>ps.
            thenE (at0 ps) (\<lambda>p. dot p ''text'')))))"

definition callGeminiAPI_minimal ::
  "minimal_config option \<Rightarrow> minimal_outcome \<Rightarrow> minimal_turn list \<Rightarrow> minimal_world
     \<Rightarrow> (jserror + json) \<times> minimal_world" where
  "callGeminiAPI_minimal binding net history w =
     (case getApiKey_minimal w of
        Inl e \<Rightarrow> (Inl e, w)
      | Inr apiKey \<Rightarrow>
          (case getSystemPrompt_minimal binding w of
             (Inl e, w1) \<Rightarrow> (Inl e, w1)
           | (Inr systemPrompt, w1) \<Rightarrow>
               (let messages = \<lparr>role = ''user'', parts = [\<lparr>text = systemPrompt\<rparr>]\<rparr>
                      # map (\<lambda>msg. \<lparr>role = mrole msg, parts = [\<lparr>text = content msg\<rparr>]\<rparr>) history
                in case MINIMAL_CONFIG binding of
                     Inl e \<Rightarrow> (Inl e, w1)
                   | Inr c \<Rightarrow>
                       (let url = API_BASE_URL c @ ''/'' @ API_MODEL c
                                    @ '':generateContent?key='' @ apiKey;
                            w2 = w1\<lparr>fetched := fetched w1 @ [(url, messages)]\<rparr>
                        in case net of
                             MFetchThrows e \<Rightarrow> (Inl e, w2)
                           | MResponse responseCode contentText body \<Rightarrow>
                               if responseCode \<noteq> 200
                               then (Inl (Error (MIN_API_ERROR @ contentText)), w2)
                               else (thenE body replyText_minimal, w2)))))"

text \<open>The body of the \<open>try\<close> of the minimal \<open>processMessage\<close>.\<close>

definition processMessage_minimal_try ::
  "minimal_config option \<Rightarrow> minimal_outcome \<Rightarrow> string \<Rightarrow> string \<Rightarrow> minimal_world
     \<Rightarrow> (jserror + json) \<times> minimal_world" where
  "processMessage_minimal_try binding net userId message w =
     (if userId = [] \<or> message = [] then (Inl (Error MIN_INVALID), w)
      else (let history1 = getConversationHistory_minimal userId w
                             @ [\<lparr>mrole = ''user'', content = JStr message\<rparr>]
            in case MINIMAL_CONFIG binding of
                 Inl e \<Rightarrow> (Inl e, w)
               | Inr c \<Rightarrow>
                   (let history2 = (if length history1 > MAX_HISTORY c * 2
                                    then drop (length history1 - MAX_HISTORY c * 2) history1
                                    else history1)
                    in case callGeminiAPI_minimal binding net history2 w of
                         (Inl e, w1) \<Rightarrow> (Inl e, w1)
                       | (Inr response, w1) \<Rightarrow>
                           (let history3 = history2 @ [\<lparr>mrole = ''model'', content = response\<rparr>]
                            in case saveConversationHistory_minimal binding userId history3 w1 of
                                 (Inl e, w2) \<Rightarrow> (Inl e, w2)
                               | (Inr u, w2) \<Rightarrow>
                                   (Inr response,
                                    logToSheet binding userId ''model'' response
                                      (logToSheet binding userId ''user'' (JStr message) w2))))))"

text \<open>The \<open>catch\<close> logs the error under role error and throws it again.\<close>

definition processMessage_minimal ::
  "minimal_config option \<Rightarrow> minimal_outcome \<Rightarrow> string \<Rightarrow> string \<Rightarrow> minimal_world
     \<Rightarrow> (jserror + json) \<times> minimal_world" where
  "processMessage_minimal binding net userId message w =
     (case processMessage_minimal_try binding net userId message w of
        (Inr response, w') \<Rightarrow> (Inr response, w')
      | (Inl e, w') \<Rightarrow> (Inl e, logToSheet binding userId ''error'' (JStr (toString e)) w'))"

section \<open>Notions used to state the properties\<close>

text \<open>
  The turn a log row is restored to, the rows a restore collects for a user, and the
  turns \<open>processMessage\<close> appends for a message and for a reply.
\<close>

definition turnOfRow :: "logrow \<Rightarrow> turn" where
  "turnOfRow row = \<lparr>role = rowRole row, parts = [\<lparr>text = rowMessage row\<rparr>]\<rparr>"

definition restorable :: "string \<Rightarrow> logrow \<Rightarrow> bool" where
  "restorable userId row \<longleftrightarrow>
     rowUserId row = userId \<and> truthy (rowMessage row) \<and> rowRole row \<noteq> ''system''"

definition userTurn :: "string \<Rightarrow> turn" where
  "userTurn s = \<lparr>role = ''user'', parts = [\<lparr>text = JStr s\<rparr>]\<rparr>"

definition modelTurn :: "json \<Rightarrow> turn" where
  "modelTurn response = \<lparr>role = ''model'', parts = [\<lparr>text = response\<rparr>]\<rparr>"

text \<open>
  The request URL for a key, the wait before an attempt (none before the first), the
  error recorded for a transient status, the world after the key has been read (the
  extended file remembers it) with a given event trace, and the number of fetches in a
  trace.
\<close>

definition urlOf :: "string \<Rightarrow> string" where
  "urlOf apiKey = BASE_URL @ ''/'' @ MODEL @ '':generateContent?key='' @ apiKey"

definition backoff :: "nat \<Rightarrow> event list" where
  "backoff attempt = (if attempt > 0 then [Sleep (baseDelay * 2 ^ (attempt - 1))] else [])"

definition transientError :: "nat \<Rightarrow> jserror" where
  "transientError code = Error (TRANSIENT_MARK @ '' ('' @ digits code @ TRANSIENT_TAIL)"

definition keyed :: "variant \<Rightarrow> world \<Rightarrow> event list \<Rightarrow> world" where
  "keyed v w E = (snd (getApiKey v w))\<lparr>events := E\<rparr>"

definition fetchCount :: "event list \<Rightarrow> nat" where
  "fetchCount es = length (filter (\<lambda>e. case e of Fetch url p \<Rightarrow> True | Sleep ms \<Rightarrow> False) es)"

text \<open>
  The mapping \<open>processMessage\<close> works on for a user (what \<open>getConversationHistory\<close> hands
  it), a user's conversation in a mapping and in the cache, and the outcome of the call of
  the endpoint that \<open>processMessage\<close> makes for a valid user id and message: the call with
  the loaded conversation, extended by the user turn and trimmed, in the world left by
  loading and by logging the message.
\<close>

definition loaded :: "variant \<Rightarrow> string \<Rightarrow> world \<Rightarrow> store" where
  "loaded v userId w = fst (getConversationHistory v (Some userId) w)"

definition historyOf :: "store \<Rightarrow> string \<Rightarrow> turn list" where
  "historyOf conversationHistory userId =
     (case conversationHistory userId of None \<Rightarrow> [] | Some h \<Rightarrow> h)"

definition conversationOf :: "world \<Rightarrow> string \<Rightarrow> turn list" where
  "conversationOf w userId = (case cache w of None \<Rightarrow> [] | Some cached \<Rightarrow> historyOf cached userId)"

definition aiCallResult ::
  "variant \<Rightarrow> (nat \<Rightarrow> fetch_outcome) \<Rightarrow> string \<Rightarrow> string \<Rightarrow> world \<Rightarrow> jserror + json" where
  "aiCallResult v net userId message w =
     fst (callGeminiAPI v net userId
            (trimConversationHistory v (historyOf (loaded v userId w) userId @ [userTurn message]))
            (logChat v userId ''user'' (JStr message)
               (snd (getConversationHistory v (Some userId) w))))"

text \<open>
  The row the extended \<open>processMessage\<close> logs for an error, and its six user-facing texts.
\<close>

definition systemRow :: "string \<Rightarrow> jserror \<Rightarrow> logrow" where
  "systemRow userId e =
     \<lparr>rowUserId = userId, rowRole = ''system'',
      rowMessage = JStr (ERROR_TAG @ (if emessage e \<noteq> [] then emessage e else ''Unknown error''))\<rparr>"

definition userFacingMessages :: "string list" where
  "userFacingMessages = [USER_RATE_LIMIT, USER_SERVICE_UNAVAILABLE, USER_NETWORK_ERROR,
     USER_TIMEOUT, USER_API_ERROR, USER_GENERIC_ERROR]"

text \<open>
  The states the script can be in. It starts in any state without a cache entry (whatever
  the log sheet and the settings hold; an expired or removed entry is such a state). From
  a state it moves by every writer of the cache entry in the repository: a call of
  \<open>processMessage\<close> with any arguments and any behaviour of the endpoint, a call of
  \<open>clearConversationHistory\<close>, a call of \<open>getConversationHistory\<close> alone (the export
  functions of the extended file make one, and it restores and saves on a miss), in the
  extended file an \<open>importSession\<close> of any history for any user id, the save of a two-turn
  conversation of one user that \<open>testCaching\<close> of the test framework makes, and anything
  that happens outside these and leaves the cache entry as it is (rows added to the sheet,
  settings changed, the module variables reset for a new execution).
\<close>

inductive reachable :: "variant \<Rightarrow> world \<Rightarrow> bool" for v :: variant where
  start: "cache w = None \<Longrightarrow> reachable v w"
| message: "reachable v w \<Longrightarrow> reachable v (snd (processMessage v net userId message w))"
| clear: "reachable v w \<Longrightarrow> reachable v (clearConversationHistory v userId w)"
| load: "reachable v w \<Longrightarrow> reachable v (snd (getConversationHistory v userId w))"
| imported: "v = Extended \<Longrightarrow> reachable v w \<Longrightarrow>
             reachable v (importSession sessionUserId history w)"
| selfTest: "reachable v w \<Longrightarrow>
             reachable v (saveConversationHistory
                            [testUserId \<mapsto> [userTurn question, modelTurn answer]] w)"
| outside: "reachable v w \<Longrightarrow> cache w' = cache w \<Longrightarrow> reachable v w'"

text \<open>
  Properties of the conversations in the cache: \<open>everyStored P\<close> holds of a state when
  every conversation of its cache entry satisfies \<open>P\<close>. Two such properties: a
  conversation is bounded (\<open>conversationBounded\<close>) when it has at most one turn more
  than the maximum and no turn of role system; it has one part each (\<open>onePartEach\<close>)
  when every turn has exactly one part. A property is kept by a chat when it holds of the
  empty conversation, of every conversation restored from the log sheet, and of a
  conversation after one exchange (the user turn appended, the trim, the reply appended)
  when it held before.
\<close>

definition everyStored :: "(turn list \<Rightarrow> bool) \<Rightarrow> world \<Rightarrow> bool" where
  "everyStored P w \<longleftrightarrow>
     (case cache w of
        None \<Rightarrow> True
      | Some cached \<Rightarrow> (\<forall>userId h. cached userId = Some h \<longrightarrow> P h))"

definition conversationBounded :: "turn list \<Rightarrow> bool" where
  "conversationBounded h \<longleftrightarrow> length h \<le> MAX_HISTORY_LENGTH + 1 \<and> ''system'' \<notin> role ` set h"

definition onePartEach :: "turn list \<Rightarrow> bool" where
  "onePartEach h \<longleftrightarrow> list_all (\<lambda>t. length (parts t) = 1) h"

definition keptByChat :: "variant \<Rightarrow> (turn list \<Rightarrow> bool) \<Rightarrow> bool" where
  "keptByChat v P \<longleftrightarrow>
     P []
     \<and> (\<forall>u data. P (restoreHistoryFromLogSheet u MAX_HISTORY_LENGTH data))
     \<and> (\<forall>h m response.
          P h \<longrightarrow> P (trimConversationHistory v (h @ [userTurn m]) @ [modelTurn response]))"

section \<open>Sample inputs\<close>

text \<open>A conversation of twelve user turns.\<close>

definition sampleHistory :: "turn list" where
  "sampleHistory = map userTurn
     [''m00'', ''m01'', ''m02'', ''m03'', ''m04'', ''m05'', ''m06'', ''m07'', ''m08'', ''m09'',
      ''m10'', ''m11'']"

text \<open>
  A fresh deployment: key and prompt set, nothing cached, nothing logged. Beside it the
  same without the key, with one logged message of user \<open>u1\<close>, and with ten.
\<close>

definition world0 :: world where
  "world0 = \<lparr>cache = None, sheet = [], logBuffer = [], apiKeyProperty = Some ''key'',
              apiKeyCached = None, promptSheet = Some (JStr ''Be brief.''),
              promptCached = None, events = []\<rparr>"

definition worldNoKey :: world where
  "worldNoKey = world0\<lparr>apiKeyProperty := None\<rparr>"

definition worldLogged :: world where
  "worldLogged = world0\<lparr>sheet := [\<lparr>rowUserId = ''u1'', rowRole = ''user'',
                                     rowMessage = JStr ''hello''\<rparr>]\<rparr>"

definition tenRows :: "logrow list" where
  "tenRows = map (\<lambda>s. \<lparr>rowUserId = ''u1'', rowRole = ''user'', rowMessage = JStr s\<rparr>)
     [''m00'', ''m01'', ''m02'', ''m03'', ''m04'', ''m05'', ''m06'', ''m07'', ''m08'', ''m09'']"

definition worldTenRows :: world where
  "worldTenRows = world0\<lparr>sheet := tenRows\<rparr>"

definition minimalWorld0 :: minimal_world where
  "minimalWorld0 = \<lparr>chatCache = Map.empty, logRows = [], geminiApiKey = Some ''key'',
                     promptValue = Some (JStr ''Be brief.''), fetched = []\<rparr>"


text \<open>
  Endpoints: one that always answers 503, one that always answers 500, one whose fetch
  always fails with the host's "Address unavailable", and one that answers 200 with an
  envelope of one candidate with one part.
\<close>

definition always503 :: "nat \<Rightarrow> fetch_outcome" where
  "always503 attempt = Response 503 (Inr JNull)"

definition always500 :: "nat \<Rightarrow> fetch_outcome" where
  "always500 attempt = Response 500 (Inr JNull)"


definition envelope :: "json \<Rightarrow> json" where
  "envelope p =
     JObj [(''candidates'', JArr [JObj [(''content'', JObj [(''parts'', JArr [p])])]])]"

definition replies :: "json \<Rightarrow> nat \<Rightarrow> fetch_outcome" where
  "replies p attempt = Response 200 (Inr (envelope p))"

definition okReply :: "nat \<Rightarrow> fetch_outcome" where
  "okReply attempt = Response 200 (Inr (envelope (JObj [(''text'', JStr ''ok'')])))"

text \<open>
  One exchange: user \<open>u1\<close> sends "hello" and the endpoint replies "ok". Six of them in
  the base file, starting from the fresh deployment.
\<close>

definition exchange :: "variant \<Rightarrow> world \<Rightarrow> world" where
  "exchange v w = snd (processMessage v okReply (JStr ''u1'') (JStr ''hello'') w)"

definition sixExchanges :: world where
  "sixExchanges = exchange Base (exchange Base (exchange Base
                    (exchange Base (exchange Base (exchange Base world0)))))"

text \<open>
  Histories for \<open>importSession\<close> of the extended file: a user turn with two parts, and a
  turn of role system. The fresh deployment after the import, for user \<open>u1\<close>, of the one
  turn with two parts, and of twelve turns of role system; and after the import of the
  conversation of twelve user turns for another user \<open>u2\<close>.
\<close>

definition twoPartTurn :: turn where
  "twoPartTurn = \<lparr>role = ''user'', parts = [\<lparr>text = JStr ''a''\<rparr>, \<lparr>text = JStr ''b''\<rparr>]\<rparr>"

definition systemTurn :: turn where
  "systemTurn = \<lparr>role = ''system'', parts = [\<lparr>text = JStr ''s''\<rparr>]\<rparr>"

definition worldImportedParts :: world where
  "worldImportedParts = importSession ''u1'' [twoPartTurn] world0"

definition worldImportedSystem :: world where
  "worldImportedSystem = importSession ''u1'' (replicate 12 systemTurn) world0"

definition worldImportedOther :: world where
  "worldImportedOther = importSession ''u2'' sampleHistory world0"

section \<open>Trimming\<close>

lemma trim_Extended_no_system:
  assumes "\<forall>t \<in> set h. role t \<noteq> ''system''"
  shows "trimConversationHistory Extended h = trimConversationHistory Base h"
proof -
  have f1: "filter (\<lambda>msg. role msg = ''system'') h = []"
    using assms by (simp add: filter_empty_conv)
  have f2: "filter (\<lambda>msg. role msg \<noteq> ''system'') h = h"
    using assms by (simp add: filter_id_conv)
  show ?thesis
    by (simp add: f1 f2 slice_js_def Let_def nat_diff_distrib' del: of_nat_diff)
qed



section \<open>Restoring a conversation from the log sheet\<close>

lemma restoreLoop_step:
  "restoreLoop userId limit data (Suc i) acc =
     (if length acc < limit
      then restoreLoop userId limit data i
             (if restorable userId (data ! i) then turnOfRow (data ! i) # acc else acc)
      else acc)"
  by (simp add: restorable_def turnOfRow_def Let_def)

lemma restoreLoop_eq:
  "n \<le> length data \<Longrightarrow>
   restoreLoop userId limit data n acc =
     (let c = map turnOfRow (filter (restorable userId) (take n data))
      in drop (length c - (limit - length acc)) c @ acc)"
proof (induction n arbitrary: acc)
  case 0
  then show ?case by simp
next
  case (Suc n)
  then have n: "n < length data" and IH: "\<And>acc. restoreLoop userId limit data n acc =
     (let c = map turnOfRow (filter (restorable userId) (take n data))
      in drop (length c - (limit - length acc)) c @ acc)" by auto
  have tk: "take (Suc n) data = take n data @ [data ! n]"
    using n by (simp add: take_Suc_conv_app_nth)
  define c where "c = map turnOfRow (filter (restorable userId) (take n data))"
  show ?case
  proof (cases "length acc < limit")
    case False
    then show ?thesis by (simp only: restoreLoop_step) simp
  next
    case True
    show ?thesis
    proof (cases "restorable userId (data ! n)")
      case False
      then show ?thesis using True
        by (simp only: restoreLoop_step tk IH) simp
    next
      case yes: True
      have a: "length c + 1 - (limit - length acc) = length c - (limit - Suc (length acc))"
        using True by arith
      have b: "length c + 1 - (limit - length acc) \<le> length c"
        using True by arith
      have "restoreLoop userId limit data (Suc n) acc =
              drop (length c - (limit - Suc (length acc))) c @ turnOfRow (data ! n) # acc"
        using True yes by (simp only: restoreLoop_step IH) (simp add: c_def)
      also have "\<dots> = drop (length c + 1 - (limit - length acc)) (c @ [turnOfRow (data ! n)]) @ acc"
        using b by (simp add: a)
      finally show ?thesis using yes by (simp add: tk c_def)
    qed
  qed
qed

lemma restoreHistoryFromLogSheet_eq:
  "restoreHistoryFromLogSheet userId limit data =
     (let c = map turnOfRow (filter (restorable userId) data)
      in drop (length c - limit) c)"
  by (simp add: restoreHistoryFromLogSheet_def restoreLoop_eq Let_def)

text \<open>
  C7. Whatever the log holds, the restored conversation has at most \<open>limit\<close> turns, none
  of role system, and is in write order: it is a subsequence of the log read as turns, and
  more precisely the end of the rows that can be restored for this user.
\<close>

theorem restore_bounded_no_system_chronological:
  "length (restoreHistoryFromLogSheet userId limit data) \<le> limit
   \<and> ''system'' \<notin> role ` set (restoreHistoryFromLogSheet userId limit data)
   \<and> subseq (restoreHistoryFromLogSheet userId limit data) (map turnOfRow data)
   \<and> suffix (restoreHistoryFromLogSheet userId limit data)
        (map turnOfRow (filter (restorable userId) data))"
proof -
  define c where "c = map turnOfRow (filter (restorable userId) data)"
  have r: "restoreHistoryFromLogSheet userId limit data = drop (length c - limit) c"
    by (simp add: restoreHistoryFromLogSheet_eq c_def Let_def)
  have 1: "length (drop (length c - limit) c) \<le> limit" by simp
  have "\<forall>t \<in> set c. role t \<noteq> ''system''"
    by (auto simp add: c_def restorable_def turnOfRow_def)
  then have 2: "''system'' \<notin> role ` set (drop (length c - limit) c)"
    by (auto dest: in_set_dropD)
  have 4: "suffix (drop (length c - limit) c) c" by (rule suffix_drop)
  have "subseq c (map turnOfRow data)"
    unfolding c_def by (simp add: subseq_map)
  with 4 have 3: "subseq (drop (length c - limit) c) (map turnOfRow data)"
    using suffix_imp_subseq subseq_order.trans by blast
  show ?thesis using 1 2 3 4 unfolding r c_def by blast
qed

section \<open>Substring tests and the API key\<close>

lemma getApiKey_events [simp]: "events (snd (getApiKey v w)) = events w"
  by (cases v) (auto simp: readApiKeyProperty_def split: option.splits sum.splits)

lemma getApiKey_upd_events:
  "getApiKey v (w\<lparr>events := E\<rparr>) = (fst (getApiKey v w), (snd (getApiKey v w))\<lparr>events := E\<rparr>)"
  by (cases v) (auto simp: readApiKeyProperty_def split: option.splits sum.splits)

lemma getApiKey_again:
  "fst (getApiKey v w) = Inr k \<Longrightarrow> getApiKey v (snd (getApiKey v w)) = (Inr k, snd (getApiKey v w))"
  by (cases v) (auto simp: readApiKeyProperty_def split: option.splits sum.splits if_splits)

lemma keyed_events [simp]: "events (keyed v w E) = E"
  by (simp add: keyed_def)

lemma keyed_key: "fst (getApiKey v w) = Inr k \<Longrightarrow> fst (getApiKey v (keyed v w E)) = Inr k"
  by (simp add: keyed_def getApiKey_upd_events getApiKey_again)

lemma keyed_keyed: "fst (getApiKey v w) = Inr k \<Longrightarrow> keyed v (keyed v w E) E' = keyed v w E'"
  by (simp add: keyed_def getApiKey_upd_events getApiKey_again)

lemma try_fetch:
  assumes "fst (getApiKey v w) = Inr k"
  shows "callGeminiAPI_try v net p a w =
     (let w3 = keyed v w (events w @ backoff a @ [Fetch (urlOf k) p])
      in case net a of
           FetchThrows e \<Rightarrow> (Thrown e, w3)
         | Response responseCode body \<Rightarrow>
             if responseCode = 200
             then (case thenE body extractResponseText of
                     Inl e \<Rightarrow> (Thrown e, w3)
                   | Inr t \<Rightarrow> (Returned t, w3))
             else if responseCode = 429 \<or> responseCode = 503
             then (Transient (transientError responseCode), w3)
             else (Thrown (Error (API_CALL_FAILED @ '': '' @ digits responseCode)), w3))"
proof -
  obtain w' where g: "getApiKey v w = (Inr k, w')" using assms by (cases "getApiKey v w") auto
  have g1: "getApiKey v (w\<lparr>events := E\<rparr>) = (Inr k, w'\<lparr>events := E\<rparr>)" for E
    using g by (simp add: getApiKey_upd_events)
  have ev: "events w' = events w" using getApiKey_events [of v w] g by simp
  show ?thesis
    by (cases "a > 0")
       (simp_all add: callGeminiAPI_try_def getGeminiUrl_def g g1 ev Let_def keyed_def backoff_def
          urlOf_def transientError_def split: fetch_outcome.splits sum.splits)
qed

lemma startsWith_prefix: "startsWith s p \<longleftrightarrow> prefix p s"
  by (induction s p rule: startsWith.induct) auto

lemma includes_js_sublist: "includes_js s pat \<longleftrightarrow> sublist pat s"
proof (induction s)
  case Nil
  then show ?case by auto
next
  case (Cons c cs)
  show ?case
    by (simp only: includes_js.simps startsWith_prefix Cons sublist_Cons_right)
qed

lemma sublist_append_tail:
  assumes "pat \<noteq> []" and "last pat \<notin> set ys"
  shows "sublist pat (xs @ ys) \<longleftrightarrow> sublist pat xs"
proof
  assume "sublist pat xs"
  then show "sublist pat (xs @ ys)" unfolding sublist_def by (metis append.assoc)
next
  assume "sublist pat (xs @ ys)"
  then obtain pre post where e: "xs @ ys = pre @ pat @ post" by (auto simp: sublist_def)
  have "length (pre @ pat) \<le> length xs"
  proof (rule ccontr)
    assume "\<not> length (pre @ pat) \<le> length xs"
    then have lt: "length xs < length pre + length pat" by simp
    let ?i = "length pre + length pat - 1"
    have lp: "0 < length pat" using assms(1) by simp
    have "?i < length pre + (length pat + length post)" using lp by arith
    then have "?i < length (pre @ pat @ post)" by simp
    then have i: "?i < length (xs @ ys)" using e by simp
    have "(xs @ ys) ! ?i = (pre @ pat @ post) ! ?i" using e by simp
    also have "\<dots> = pat ! (length pat - 1)"
      using lp by (simp add: nth_append del: length_greater_0_conv) arith
    also have "\<dots> = last pat" using assms(1) by (simp add: last_conv_nth)
    finally have l: "(xs @ ys) ! ?i = last pat" .
    have "length xs \<le> ?i" using lt by simp
    then have "(xs @ ys) ! ?i = ys ! (?i - length xs)" by (simp add: nth_append)
    moreover have "?i - length xs < length ys" using i lt by simp
    ultimately have "last pat \<in> set ys" using l by (metis nth_mem)
    with assms(2) show False by simp
  qed
  then have "pre @ pat = take (length (pre @ pat)) xs"
    using e by (metis append.assoc append_eq_conv_conj take_append diff_is_0_eq' take_0 append_Nil2)
  then have "xs = pre @ pat @ drop (length (pre @ pat)) xs"
    by (metis append.assoc append_take_drop_id)
  then show "sublist pat xs" unfolding sublist_def by blast
qed

lemma digitChar_in: "d < 10 \<Longrightarrow> digitChar d \<in> set ''0123456789''"
  unfolding digitChar_def by (rule nth_mem) simp

lemma digits_set: "set (digits n) \<subseteq> set ''0123456789''"
proof (induction n rule: digits.induct)
  case (1 n)
  show ?case
  proof (cases "n < 10")
    case True
    then show ?thesis using digitChar_in [of n] by (subst digits.simps) simp
  next
    case False
    have "n mod 10 < 10" by simp
    then have "digitChar (n mod 10) \<in> set ''0123456789''" by (rule digitChar_in)
    then show ?thesis using False 1 by (subst digits.simps) simp
  qed
qed

lemma includes_js_digits_tail:
  assumes "pat \<noteq> []" and "last pat \<notin> set ''0123456789''"
  shows "includes_js (xs @ digits n) pat \<longleftrightarrow> includes_js xs pat"
proof -
  have "last pat \<notin> set (digits n)" using assms(2) digits_set by blast
  then have "sublist pat (xs @ digits n) \<longleftrightarrow> sublist pat xs"
    using assms(1) by (rule sublist_append_tail [rotated])
  then show ?thesis by (simp only: includes_js_sublist)
qed

section \<open>The retry loop\<close>

lemma loop_exhausted:
  "callGeminiAPI_loop v net p maxRetries (Some e) w =
     (Inl (Error (EXHAUSTED_HEAD @ digits maxRetries @ EXHAUSTED_TAIL @ emessage e)), w)"
  by (subst callGeminiAPI_loop.simps) simp

lemma loop_transient_step:
  assumes "fst (getApiKey v w) = Inr k" and "attempt < maxRetries"
    and "net attempt = Response c body" and "c = 429 \<or> c = 503"
  shows "callGeminiAPI_loop v net p attempt lastError w =
           callGeminiAPI_loop v net p (Suc attempt) (Some (transientError c))
             (keyed v w (events w @ backoff attempt @ [Fetch (urlOf k) p]))"
  using assms(2-4)
  by (subst callGeminiAPI_loop.simps) (auto simp add: try_fetch [OF assms(1)] Let_def)



lemma terminal_error_rethrown:
  "callGeminiAPI_catch (Error (API_CALL_FAILED @ '': '' @ digits c))
     = Rethrow (Error (API_CALL_FAILED @ '': '' @ digits c))"
proof -
  have a: "\<not> includes_js ((''Error: '' @ API_CALL_FAILED @ '': '') @ digits c) ''UrlFetchApp''"
    by (subst includes_js_digits_tail) (simp_all add: API_CALL_FAILED_def)
  have b: "\<not> includes_js ((''Error: '' @ API_CALL_FAILED @ '': '') @ digits c) ''Network''"
    by (subst includes_js_digits_tail) (simp_all add: API_CALL_FAILED_def)
  have c: "\<not> includes_js ((''Error: '' @ API_CALL_FAILED @ '': '') @ digits c) ''Timeout''"
    by (subst includes_js_digits_tail) (simp_all add: API_CALL_FAILED_def)
  have d: "\<not> includes_js ((API_CALL_FAILED @ '': '') @ digits c) TRANSIENT_MARK"
    by (subst includes_js_digits_tail) (simp_all add: API_CALL_FAILED_def TRANSIENT_MARK_def)
  have ne: "API_CALL_FAILED @ '': '' @ digits c \<noteq> []" by (simp add: API_CALL_FAILED_def)
  show ?thesis
    using a b c d ne
    by (simp add: callGeminiAPI_catch_def isNetworkError_def toString_def Error_def)
qed

lemma loop_terminal:
  assumes "fst (getApiKey v w) = Inr k" and "attempt < maxRetries"
    and "net attempt = Response c body" and "c \<noteq> 200" "c \<noteq> 429" "c \<noteq> 503"
  shows "callGeminiAPI_loop v net p attempt lastError w =
           (Inl (Error (API_CALL_FAILED @ '': '' @ digits c)),
            keyed v w (events w @ backoff attempt @ [Fetch (urlOf k) p]))"
  using assms(2-6)
  by (subst callGeminiAPI_loop.simps)
     (simp add: try_fetch [OF assms(1)] Let_def terminal_error_rethrown [simplified])



lemma getSystemPrompt_events [simp]: "events (snd (getSystemPrompt v w)) = events w"
  by (cases v) (auto simp: readPromptSheet_def split: option.splits sum.splits)

lemma getSystemPrompt_key [simp]: "getApiKey v (snd (getSystemPrompt v w)) =
   (fst (getApiKey v w), snd (getSystemPrompt v (snd (getApiKey v w))))"
  by (cases v) (auto simp: readPromptSheet_def readApiKeyProperty_def CACHE_PROMPT_def
       split: option.splits sum.splits)

lemma callGeminiAPI_prompt:
  assumes "fst (getSystemPrompt v w) = Inr prompt"
  shows "callGeminiAPI v net userId history w =
           callGeminiAPI_loop v net
             \<lparr>systemInstruction = \<lparr>role = ''model'', parts = [\<lparr>text = prompt\<rparr>]\<rparr>,
              contents = history\<rparr> 0 None (snd (getSystemPrompt v w))"
  using assms
  by (cases "getSystemPrompt v w") (simp add: callGeminiAPI_def buildApiPayload_def)

text \<open>
  C5. When the key and the prompt can be read and every fetch answers 503, the call makes
  exactly \<open>maxRetries\<close> = 3 fetches, waiting \<open>baseDelay\<close> and twice \<open>baseDelay\<close> between
  them, and then throws the retries-exhausted error whose message ends in the message of
  the last transient error.
\<close>

theorem all_503_exhausts_retries:
  assumes key: "fst (getApiKey v w) = Inr apiKey"
    and prompt: "fst (getSystemPrompt v w) = Inr prompt"
    and net: "\<forall>attempt. \<exists>body. net attempt = Response 503 body"
  shows "\<exists>w' url p.
           callGeminiAPI v net userId history w =
             (Inl (Error (EXHAUSTED_HEAD @ digits maxRetries @ EXHAUSTED_TAIL
                           @ emessage (transientError 503))), w')
           \<and> events w' = events w @ [Fetch url p, Sleep baseDelay, Fetch url p,
                                       Sleep (2 * baseDelay), Fetch url p]
           \<and> fetchCount (events w') = fetchCount (events w) + maxRetries"
proof -
  define p where "p = \<lparr>systemInstruction = \<lparr>role = ''model'', parts = [\<lparr>text = prompt\<rparr>]\<rparr>,
                        contents = history\<rparr>"
  define w0 where "w0 = snd (getSystemPrompt v w)"
  define w1 where "w1 = keyed v w0 (events w0 @ backoff 0 @ [Fetch (urlOf apiKey) p])"
  define w2 where "w2 = keyed v w1 (events w1 @ backoff 1 @ [Fetch (urlOf apiKey) p])"
  define w3 where "w3 = keyed v w2 (events w2 @ backoff 2 @ [Fetch (urlOf apiKey) p])"
  have k0: "fst (getApiKey v w0) = Inr apiKey" using key by (simp add: w0_def)
  have k1: "fst (getApiKey v w1) = Inr apiKey" unfolding w1_def using k0 by (rule keyed_key)
  have k2: "fst (getApiKey v w2) = Inr apiKey" unfolding w2_def using k1 by (rule keyed_key)
  obtain b0 b1 b2 where n: "net 0 = Response 503 b0" "net 1 = Response 503 b1"
    "net 2 = Response 503 b2" using net by metis
  have s0: "callGeminiAPI_loop v net p 0 None w0 =
              callGeminiAPI_loop v net p (Suc 0) (Some (transientError 503)) w1"
    unfolding w1_def
    using loop_transient_step [where net = net and attempt = 0 and c = 503 and p = p, OF k0] n(1)
    by (simp add: maxRetries_def)
  have s1: "callGeminiAPI_loop v net p (Suc 0) (Some (transientError 503)) w1 =
              callGeminiAPI_loop v net p (Suc (Suc 0)) (Some (transientError 503)) w2"
    unfolding w2_def
    using loop_transient_step [where net = net and attempt = "Suc 0" and c = 503 and p = p, OF k1]
      n(2)
    by (simp add: maxRetries_def)
  have s2: "callGeminiAPI_loop v net p (Suc (Suc 0)) (Some (transientError 503)) w2 =
              callGeminiAPI_loop v net p maxRetries (Some (transientError 503)) w3"
    unfolding w3_def
    using loop_transient_step [where net = net and attempt = "Suc (Suc 0)" and c = 503 and p = p,
        OF k2] n(3)
    by (simp add: maxRetries_def numeral_2_eq_2 numeral_3_eq_3)
  have r: "callGeminiAPI v net userId history w =
             (Inl (Error (EXHAUSTED_HEAD @ digits maxRetries @ EXHAUSTED_TAIL
                           @ emessage (transientError 503))), w3)"
    by (simp only: callGeminiAPI_prompt [OF prompt] p_def [symmetric] w0_def [symmetric]
          s0 s1 s2 loop_exhausted)
  have e: "events w3 = events w @ [Fetch (urlOf apiKey) p, Sleep baseDelay, Fetch (urlOf apiKey) p,
                                   Sleep (2 * baseDelay), Fetch (urlOf apiKey) p]"
    by (simp add: w3_def w2_def w1_def w0_def backoff_def)
  have c: "fetchCount (events w3) = fetchCount (events w) + maxRetries"
    by (simp add: e fetchCount_def maxRetries_def)
  show ?thesis using r e c by blast
qed

lemma world0_key: "fst (getApiKey v world0) = Inr ''key''"
  by (cases v) (simp_all add: world0_def readApiKeyProperty_def)

lemma world0_prompt: "fst (getSystemPrompt v world0) = Inr (JStr ''Be brief.'')"
  by (cases v) (simp_all add: world0_def readPromptSheet_def)

lemma digits_3: "digits 3 = ''3''"
  by (simp add: digits.simps digitChar_def)

lemma digits_503: "digits 503 = ''503''"
  by (simp add: digits.simps digitChar_def)

theorem all_503_exhausts_retries_witness:
  "fst (getApiKey Base world0) = Inr ''key''
   \<and> fst (getSystemPrompt Base world0) = Inr (JStr ''Be brief.'')
   \<and> (\<forall>attempt. \<exists>body. always503 attempt = Response 503 body)
   \<and> (\<exists>w' url p.
         callGeminiAPI Base always503 ''u1'' [userTurn ''hello''] world0 =
           (Inl (Error (EXHAUSTED_HEAD @ ''3'' @ EXHAUSTED_TAIL
                         @ TRANSIENT_MARK @ '' (503'' @ TRANSIENT_TAIL)), w')
         \<and> events w' = [Fetch url p, Sleep 1000, Fetch url p, Sleep 2000, Fetch url p])"
proof -
  have n: "\<forall>attempt. \<exists>body. always503 attempt = Response 503 body"
    by (simp add: always503_def)
  have e: "events world0 = []" by (simp add: world0_def)
  from all_503_exhausts_retries [where userId = "''u1''" and history = "[userTurn ''hello'']",
      OF world0_key [of Base] world0_prompt [of Base] n]
  obtain w' url p where
    r: "callGeminiAPI Base always503 ''u1'' [userTurn ''hello''] world0 =
          (Inl (Error (EXHAUSTED_HEAD @ digits maxRetries @ EXHAUSTED_TAIL
                        @ emessage (transientError 503))), w')"
    and ev: "events w' = events world0 @ [Fetch url p, Sleep baseDelay, Fetch url p,
                                          Sleep (2 * baseDelay), Fetch url p]"
    by blast
  have m: "EXHAUSTED_HEAD @ digits maxRetries @ EXHAUSTED_TAIL @ emessage (transientError 503)
           = EXHAUSTED_HEAD @ ''3'' @ EXHAUSTED_TAIL @ TRANSIENT_MARK @ '' (503'' @ TRANSIENT_TAIL"
    by (simp add: maxRetries_def transientError_def Error_def digits_3 digits_503)
  have ev': "events w' = [Fetch url p, Sleep 1000, Fetch url p, Sleep 2000, Fetch url p]"
    using ev by (simp add: e baseDelay_def)
  have "\<exists>w' url p.
         callGeminiAPI Base always503 ''u1'' [userTurn ''hello''] world0 =
           (Inl (Error (EXHAUSTED_HEAD @ ''3'' @ EXHAUSTED_TAIL
                         @ TRANSIENT_MARK @ '' (503'' @ TRANSIENT_TAIL)), w')
         \<and> events w' = [Fetch url p, Sleep 1000, Fetch url p, Sleep 2000, Fetch url p]"
    using r ev' unfolding m by blast
  then show ?thesis using n world0_key world0_prompt by blast
qed








section \<open>Reading the reply and rejecting an empty user id\<close>

lemma extractResponseText_envelope:
  "extractResponseText (envelope p) = (if nullish p then Inl (TypeError_read ''text'') else Inr (member_js p ''text''))"
  by (simp add: extractResponseText_def envelope_def optMember_def thenE_def dot_def at0_def)

lemma extractResponseText_no_candidates:
  "\<not> truthy (optMember (optMember j ''candidates'') ''length'')
   \<Longrightarrow> extractResponseText j = Inl (Error NO_RESPONSE)"
  by (simp add: extractResponseText_def)

lemma key_after_prompt:
  "fst (getApiKey v w) = Inr k \<Longrightarrow> fst (getApiKey v (snd (getSystemPrompt v w))) = Inr k"
  by simp

lemma loop_returns:
  assumes "fst (getApiKey v w) = Inr k" and "net 0 = Response 200 (Inr j)"
    and "extractResponseText j = Inr t"
  shows "callGeminiAPI_loop v net p 0 lastError w =
           (Inr t, keyed v w (events w @ [Fetch (urlOf k) p]))"
  using assms(2,3)
  by (subst callGeminiAPI_loop.simps)
     (simp add: try_fetch [OF assms(1)] Let_def thenE_def maxRetries_def backoff_def)

lemma callGeminiAPI_returns:
  assumes "fst (getApiKey v w) = Inr k" and "fst (getSystemPrompt v w) = Inr prompt"
    and "net 0 = Response 200 (Inr j)" and "extractResponseText j = Inr t"
  shows "fst (callGeminiAPI v net userId history w) = Inr t"
  by (simp add: callGeminiAPI_prompt [OF assms(2)]
        loop_returns [where net = net, OF key_after_prompt [OF assms(1)] assms(3,4)])

text \<open>
  C6 at its failing inputs. A status 200 envelope whose first part has no \<open>text\<close>, or
  an empty one, passes both tests of \<open>extractResponseText\<close>, which look only at the lengths
  of \<open>candidates\<close> and \<open>parts\<close>: the function returns undefined or the empty string, and
  so does \<open>callGeminiAPI\<close> in the base and the extended file. The minimal file tests the
  text itself and throws on both envelopes.
\<close>

theorem extractResponseText_accepts_missing_text:
  "extractResponseText (envelope (JObj [])) = Inr JUndefined
   \<and> extractResponseText (envelope (JObj [(''text'', JStr [])])) = Inr (JStr [])
   \<and> fst (callGeminiAPI Base (replies (JObj [])) ''u1'' [userTurn ''hello''] world0) = Inr JUndefined
   \<and> fst (callGeminiAPI Extended (replies (JObj [(''text'', JStr [])])) ''u1'' [userTurn ''hello''] world0)
       = Inr (JStr [])
   \<and> replyText_minimal (envelope (JObj [])) = Inl (Error MIN_NO_RESPONSE)
   \<and> replyText_minimal (envelope (JObj [(''text'', JStr [])])) = Inl (Error MIN_NO_RESPONSE)"
proof -
  have 1: "extractResponseText (envelope (JObj [])) = Inr JUndefined"
    by (simp add: extractResponseText_envelope)
  have 2: "extractResponseText (envelope (JObj [(''text'', JStr [])])) = Inr (JStr [])"
    by (simp add: extractResponseText_envelope)
  have 3: "fst (callGeminiAPI Base (replies (JObj [])) ''u1'' [userTurn ''hello''] world0)
             = Inr JUndefined"
    by (rule callGeminiAPI_returns [where net = "replies (JObj [])",
          OF world0_key world0_prompt _ 1]) (simp add: replies_def)
  have 4: "fst (callGeminiAPI Extended (replies (JObj [(''text'', JStr [])])) ''u1''
                  [userTurn ''hello''] world0) = Inr (JStr [])"
    by (rule callGeminiAPI_returns [where net = "replies (JObj [(''text'', JStr [])])",
          OF world0_key world0_prompt _ 2]) (simp add: replies_def)
  have 5: "replyText_minimal (envelope (JObj [])) = Inl (Error MIN_NO_RESPONSE)"
    by (simp add: replyText_minimal_def envelope_def thenE_def dot_def optMember_def
          optElement0_def)
  have 6: "replyText_minimal (envelope (JObj [(''text'', JStr [])])) = Inl (Error MIN_NO_RESPONSE)"
    by (simp add: replyText_minimal_def envelope_def thenE_def dot_def optMember_def
          optElement0_def)
  show ?thesis using 1 2 3 4 5 6 by blast
qed

theorem extractResponseText_accepts_missing_text_witness:
  "extractResponseText (envelope (JObj [])) = Inr JUndefined
   \<and> extractResponseText (envelope (JObj [(''text'', JStr [])])) = Inr (JStr [])"
  using extractResponseText_accepts_missing_text by blast

text \<open>
  C8. With the empty string as user id, \<open>processMessage\<close> of the base and of the extended
  file throws the invalid-user-id error before its \<open>try\<close>, and the world is unchanged:
  no fetch, no sleep, no row in the sheet or in the buffer. The minimal file, as the
  repository has it, throws its invalid-input error and leaves its world unchanged as well:
  its \<open>catch\<close> calls \<open>logToSheet\<close>, which appends nothing because the settings it reads
  are not bound.
\<close>

theorem empty_user_id_rejected:
  "processMessage v net (JStr []) message w = (Inl (Error INVALID_USER_ID), w)
   \<and> processMessage_minimal None mnet [] mmessage mw = (Inl (Error MIN_INVALID), mw)"
  by (simp add: processMessage_def processMessage_minimal_def processMessage_minimal_try_def
        logToSheet_def MINIMAL_CONFIG_def)

theorem empty_user_id_rejected_witness:
  "processMessage Base always503 (JStr []) (JStr ''hi'') world0 = (Inl (Error INVALID_USER_ID), world0)
   \<and> processMessage Extended always503 (JStr []) (JStr ''hi'') world0
       = (Inl (Error INVALID_USER_ID), world0)
   \<and> processMessage_minimal None (MResponse 200 [] (Inr JNull)) [] ''hi'' minimalWorld0
       = (Inl (Error MIN_INVALID), minimalWorld0)"
  using empty_user_id_rejected [of Base always503 "JStr ''hi''" world0
          "MResponse 200 [] (Inr JNull)" "''hi''" minimalWorld0]
        empty_user_id_rejected [of Extended always503 "JStr ''hi''" world0
          "MResponse 200 [] (Inr JNull)" "''hi''" minimalWorld0]
  by blast

text \<open>
  Were \<open>MINIMAL_CONFIG\<close> bound, the minimal file would log the rejection under role error.
\<close>

lemma minimal_bound_logs_rejection:
  "processMessage_minimal (Some c) mnet [] mmessage mw =
     (Inl (Error MIN_INVALID),
      mw\<lparr>logRows := logRows mw @ [\<lparr>rowUserId = [], rowRole = ''error'',
                                     rowMessage = JStr (toString (Error MIN_INVALID))\<rparr>]\<rparr>)"
  by (simp add: processMessage_minimal_def processMessage_minimal_try_def
        logToSheet_def MINIMAL_CONFIG_def)

section \<open>What the client leaves untouched\<close>

lemma getApiKey_frame [simp]:
  "cache (snd (getApiKey v w)) = cache w"
  "sheet (snd (getApiKey v w)) = sheet w"
  "logBuffer (snd (getApiKey v w)) = logBuffer w"
  by (cases v; auto simp: readApiKeyProperty_def split: option.splits sum.splits)+

lemma getSystemPrompt_frame [simp]:
  "cache (snd (getSystemPrompt v w)) = cache w"
  "sheet (snd (getSystemPrompt v w)) = sheet w"
  "logBuffer (snd (getSystemPrompt v w)) = logBuffer w"
  by (cases v; auto simp: readPromptSheet_def split: option.splits sum.splits)+

lemma try_frame:
  "cache (snd (callGeminiAPI_try v net p a w)) = cache w
   \<and> sheet (snd (callGeminiAPI_try v net p a w)) = sheet w
   \<and> logBuffer (snd (callGeminiAPI_try v net p a w)) = logBuffer w"
proof -
  let ?w1 = "if 0 < a then w\<lparr>events := events w @ [Sleep (baseDelay * 2 ^ (a - 1))]\<rparr> else w"
  have g: "cache (snd (getApiKey v ?w1)) = cache w" "sheet (snd (getApiKey v ?w1)) = sheet w"
    "logBuffer (snd (getApiKey v ?w1)) = logBuffer w" by simp_all
  show ?thesis
    unfolding callGeminiAPI_try_def getGeminiUrl_def Let_def
    by (cases "getApiKey v ?w1")
       (use g in \<open>auto split: sum.splits fetch_outcome.splits\<close>)
qed

lemma loop_preserves:
  assumes "\<And>a w. f (snd (callGeminiAPI_try v net p a w)) = f w"
  shows "f (snd (callGeminiAPI_loop v net p a le w)) = f w"
  using assms
proof (induction v net p a le w rule: callGeminiAPI_loop.induct)
  case (1 v net p attempt lastError w)
  note pres = "1.prems"
  show ?case
  proof (cases "attempt < maxRetries")
    case False
    then show ?thesis by (subst callGeminiAPI_loop.simps) (simp split: option.splits)
  next
    case True
    obtain r w' where t: "callGeminiAPI_try v net p attempt w = (r, w')"
      by (cases "callGeminiAPI_try v net p attempt w") auto
    have r1: "f w' = f w" using pres [of attempt w] t by simp
    show ?thesis
    proof (cases r)
      case (Returned x)
      then show ?thesis using True t r1 by (subst callGeminiAPI_loop.simps) simp
    next
      case (Transient e)
      then have "f (snd (callGeminiAPI_loop v net p (Suc attempt) (Some e) w')) = f w'"
        using "1.IH"(1) [OF True t [symmetric] _ pres] by simp
      then show ?thesis using True t r1 Transient by (subst callGeminiAPI_loop.simps) simp
    next
      case (Thrown e)
      show ?thesis
      proof (cases "callGeminiAPI_catch e")
        case (Rethrow e')
        then show ?thesis using True t r1 Thrown by (subst callGeminiAPI_loop.simps) simp
      next
        case NextAttempt
        then have "f (snd (callGeminiAPI_loop v net p (Suc attempt) (Some e) w')) = f w'"
          using "1.IH"(2) [OF True t [symmetric] Thrown _ pres] by simp
        then show ?thesis using True t r1 Thrown NextAttempt
          by (subst callGeminiAPI_loop.simps) simp
      qed
    qed
  qed
qed

lemma callGeminiAPI_frame [simp]:
  "cache (snd (callGeminiAPI v net userId history w)) = cache w"
  "sheet (snd (callGeminiAPI v net userId history w)) = sheet w"
  "logBuffer (snd (callGeminiAPI v net userId history w)) = logBuffer w"
  unfolding callGeminiAPI_def buildApiPayload_def
  by (cases "getSystemPrompt v w"; cases "fst (getSystemPrompt v w)";
      use getSystemPrompt_frame [of v w] in
        \<open>simp add: loop_preserves [where f = cache] loop_preserves [where f = sheet]
           loop_preserves [where f = logBuffer] try_frame\<close>)+

lemma flushLogBuffer_cache [simp]: "cache (flushLogBuffer w) = cache w"
  by (simp add: flushLogBuffer_def)

lemma logChat_cache [simp]: "cache (logChat v userId r message w) = cache w"
  by (cases v) (simp_all add: Let_def)

section \<open>The orchestrator: outcomes of the try body and of the catch\<close>

lemma try_outcome:
  assumes "processMessage_try v net u m w = (r, w')"
  shows "(\<forall>e. r = Inl e \<longrightarrow> cache w' = cache (snd (getConversationHistory v (Some u) w)))
       \<and> (\<forall>response. r = Inr response \<longrightarrow>
            cache w' = Some ((loaded v u w)(u \<mapsto>
               trimConversationHistory v (historyOf (loaded v u w) u @ [userTurn m])
                 @ [modelTurn response])))"
proof -
  obtain st w1 where g: "getConversationHistory v (Some u) w = (st, w1)"
    by (cases "getConversationHistory v (Some u) w") auto
  define h2 where "h2 = trimConversationHistory v (historyOf st u @ [userTurn m])"
  define w2 where "w2 = logChat v u ''user'' (JStr m) w1"
  obtain r3 w3 where c: "callGeminiAPI v net u h2 w2 = (r3, w3)"
    by (cases "callGeminiAPI v net u h2 w2") auto
  have "cache (snd (callGeminiAPI v net u h2 w2)) = cache w2" by simp
  then have "cache w3 = cache w2" unfolding c by simp
  then have c3: "cache w3 = cache w1" by (simp add: w2_def)
  have unf: "processMessage_try v net u m w =
     (case r3 of Inl e \<Rightarrow> (Inl e, w3)
      | Inr response \<Rightarrow>
          (let w5 = saveConversationHistory (st(u \<mapsto> h2 @ [modelTurn response]))
                      (logChat v u ''model'' response w3)
           in (Inr response,
               if v = Extended \<and> BATCH_LOG_ENABLED \<and> logBuffer w5 \<noteq> []
               then flushLogBuffer w5 else w5)))"
    by (simp add: processMessage_try_def g Let_def addMessageToHistory_def historyOf_def
          userTurn_def modelTurn_def h2_def [symmetric, unfolded historyOf_def userTurn_def]
          w2_def [symmetric] c split: sum.splits)
  show ?thesis
    using assms c3
    by (auto simp add: unf g loaded_def h2_def saveConversationHistory_def Let_def
          split: sum.splits)
qed

lemma includes_API_KEY: "includes_js s ''API_KEY'' \<Longrightarrow> includes_js s ''API''"
proof -
  assume "includes_js s ''API_KEY''"
  then obtain pre post where "s = pre @ ''API_KEY'' @ post"
    by (auto simp: includes_js_sublist sublist_def)
  then have "s = pre @ ''API'' @ (''_KEY'' @ post)" by simp
  then show ?thesis unfolding includes_js_sublist sublist_def by blast
qed

lemma log_and_flush:
  "(let w1 = logChat Extended userId r message w
    in if BATCH_LOG_ENABLED \<and> logBuffer w1 \<noteq> [] then flushLogBuffer w1 else w1)
   = w\<lparr>sheet := sheet w @ logBuffer w @ [\<lparr>rowUserId = userId, rowRole = r, rowMessage = message\<rparr>],
        logBuffer := []\<rparr>"
  by (simp add: Let_def BATCH_LOG_ENABLED_def flushLogBuffer_def)

lemma catch_Extended:
  assumes "\<not> includes_js (emessage e) ''INVALID''"
  shows "\<exists>s \<in> set userFacingMessages.
           processMessage_catch Extended userId e w =
             (Inr (JStr s), w\<lparr>sheet := sheet w @ logBuffer w @ [systemRow userId e],
                               logBuffer := []\<rparr>)"
proof -
  have l: "(let w1 = logChat Extended userId ''system''
                        (JStr (ERROR_TAG @ (if emessage e \<noteq> [] then emessage e else ''Unknown error''))) w;
                 w2 = (if BATCH_LOG_ENABLED \<and> logBuffer w1 \<noteq> [] then flushLogBuffer w1 else w1)
             in (Inr (JStr userMessage), w2))
           = (Inr (JStr userMessage), w\<lparr>sheet := sheet w @ logBuffer w @ [systemRow userId e],
                               logBuffer := []\<rparr>)" for userMessage :: string
    using log_and_flush [of userId "''system''"
        "JStr (ERROR_TAG @ (if emessage e \<noteq> [] then emessage e else ''Unknown error''))" w]
    by (simp add: Let_def systemRow_def)
  have k: "\<not> includes_js (emessage e) ''API'' \<Longrightarrow> \<not> includes_js (emessage e) ''API_KEY''"
    using includes_API_KEY by blast
  show ?thesis
    using assms k
    by (simp only: processMessage_catch.simps Let_def l [unfolded Let_def] userFacingMessages_def)
       (simp only: list.set insert_iff bex_simps split: if_splits, auto)
qed

lemma try_result: "fst (processMessage_try v net u m w) = aiCallResult v net u m w"
proof -
  obtain st w1 where g: "getConversationHistory v (Some u) w = (st, w1)"
    by (cases "getConversationHistory v (Some u) w") auto
  show ?thesis
    by (simp add: processMessage_try_def aiCallResult_def g loaded_def historyOf_def userTurn_def
          addMessageToHistory_def Let_def split: prod.splits sum.splits)
qed

lemma processMessage_valid:
  "u \<noteq> [] \<Longrightarrow> m \<noteq> [] \<Longrightarrow>
   processMessage v net (JStr u) (JStr m) w =
     (case processMessage_try v net u m w of
        (Inr response, w') \<Rightarrow> (Inr response, w')
      | (Inl e, w') \<Rightarrow> processMessage_catch v u e w')"
  by (simp add: processMessage_def split: prod.splits sum.splits)

lemma catch_cache [simp]: "cache (snd (processMessage_catch v u e w)) = cache w"
  by (cases v) (simp_all add: processMessage_catch.simps Let_def)

lemma getApiKey_settings:
  assumes "apiKeyProperty w' = apiKeyProperty w" and "apiKeyCached w' = apiKeyCached w"
  shows "fst (getApiKey v w') = fst (getApiKey v w)"
  using assms by (cases v) (auto simp: readApiKeyProperty_def split: option.splits sum.splits)

lemma getSystemPrompt_settings:
  assumes "promptSheet w' = promptSheet w" and "promptCached w' = promptCached w"
  shows "fst (getSystemPrompt v w') = fst (getSystemPrompt v w)"
  using assms by (cases v) (auto simp: readPromptSheet_def split: option.splits sum.splits)

lemma logChat_settings [simp]:
  "apiKeyProperty (logChat v u r m w) = apiKeyProperty w"
  "apiKeyCached (logChat v u r m w) = apiKeyCached w"
  "promptSheet (logChat v u r m w) = promptSheet w"
  "promptCached (logChat v u r m w) = promptCached w"
  "events (logChat v u r m w) = events w"
  by (cases v; simp add: Let_def flushLogBuffer_def)+

lemma getConversationHistory_settings [simp]:
  "apiKeyProperty (snd (getConversationHistory v uo w)) = apiKeyProperty w"
  "apiKeyCached (snd (getConversationHistory v uo w)) = apiKeyCached w"
  "promptSheet (snd (getConversationHistory v uo w)) = promptSheet w"
  "promptCached (snd (getConversationHistory v uo w)) = promptCached w"
  "events (snd (getConversationHistory v uo w)) = events w"
  "sheet (snd (getConversationHistory v uo w)) = sheet w"
  "logBuffer (snd (getConversationHistory v uo w)) = logBuffer w"
  by (cases v; simp add: Let_def saveConversationHistory_def split: option.splits)+

lemma callGeminiAPI_terminal:
  assumes "fst (getApiKey v w) = Inr k" and "fst (getSystemPrompt v w) = Inr prompt"
    and "net 0 = Response c body" and "c \<noteq> 200" "c \<noteq> 429" "c \<noteq> 503"
  shows "fst (callGeminiAPI v net userId history w) = Inl (Error (API_CALL_FAILED @ '': '' @ digits c))"
  by (simp add: callGeminiAPI_prompt [OF assms(2)]
        loop_terminal [where net = net, OF key_after_prompt [OF assms(1)] _ assms(3-6)]
        maxRetries_def)

lemma callGeminiAPI_no_key:
  assumes "fst (getApiKey v w) = Inl e" and "fst (getSystemPrompt v w) = Inr prompt"
    and "callGeminiAPI_catch e = Rethrow e"
  shows "fst (callGeminiAPI v net userId history w) = Inl e"
proof -
  have k: "fst (getApiKey v (snd (getSystemPrompt v w))) = Inl e" using assms(1) by simp
  then obtain w' where g: "getApiKey v (snd (getSystemPrompt v w)) = (Inl e, w')"
    by (cases "getApiKey v (snd (getSystemPrompt v w))") auto
  show ?thesis
    by (subst callGeminiAPI_prompt [OF assms(2)], subst callGeminiAPI_loop.simps)
       (simp add: maxRetries_def callGeminiAPI_try_def getGeminiUrl_def Let_def assms(1,3))
qed

lemma aiCall_terminal:
  assumes "fst (getApiKey v w) = Inr k" and "fst (getSystemPrompt v w) = Inr prompt"
    and "net 0 = Response c body" and "c \<noteq> 200" "c \<noteq> 429" "c \<noteq> 503"
  shows "aiCallResult v net u m w = Inl (Error (API_CALL_FAILED @ '': '' @ digits c))"
  unfolding aiCallResult_def
  by (rule callGeminiAPI_terminal [where net = net, OF _ _ assms(3-6)])
     (simp_all add: getApiKey_settings [where w = w] getSystemPrompt_settings [where w = w] assms)

lemma aiCall_no_key:
  assumes "fst (getApiKey v w) = Inl e" and "fst (getSystemPrompt v w) = Inr prompt"
    and "callGeminiAPI_catch e = Rethrow e"
  shows "aiCallResult v net u m w = Inl e"
  unfolding aiCallResult_def
  by (rule callGeminiAPI_no_key [OF _ _ assms(3)])
     (simp_all add: getApiKey_settings [where w = w] getSystemPrompt_settings [where w = w] assms)

section \<open>Errors and the cache\<close>

lemma catch_known_errors:
  "fst (processMessage_catch Extended u (Error NO_API_KEY) w) = Inr (JStr USER_API_ERROR)"
  "fst (processMessage_catch Extended u (Error (SHEET_HEAD @ PROMPT @ SHEET_TAIL)) w)
     = Inr (JStr USER_GENERIC_ERROR)"
  by (simp_all add: processMessage_catch.simps Error_def NO_API_KEY_def SHEET_HEAD_def PROMPT_def
        SHEET_TAIL_def Let_def)

text \<open>
  C2, as the code has it. An invalid user id or message is rejected before the \<open>try\<close>, in
  every variant, with the world unchanged. In the base file every error raised in the
  \<open>try\<close> body reaches the caller as it is. In the extended file every error raised in the
  \<open>try\<close> body whose message does not contain \<open>INVALID\<close> is logged under role system and
  replaced by one of the six user-facing texts, the configuration errors included: the
  missing API key gives the API text, the missing prompt sheet the generic text.
\<close>

theorem error_policy:
  "(\<not> truthy userId \<or> \<not> isString userId \<longrightarrow>
      processMessage v net userId message w = (Inl (Error INVALID_USER_ID), w))
   \<and> (truthy userId \<and> isString userId \<and> (\<not> truthy message \<or> \<not> isString message) \<longrightarrow>
      processMessage v net userId message w = (Inl (Error INVALID_MESSAGE), w))
   \<and> (u \<noteq> [] \<and> m \<noteq> [] \<and> processMessage_try Base net u m w = (Inl e, w1) \<longrightarrow>
      processMessage Base net (JStr u) (JStr m) w = (Inl e, w1))
   \<and> (u \<noteq> [] \<and> m \<noteq> [] \<and> processMessage_try Extended net u m w = (Inl e, w1)
        \<and> \<not> includes_js (emessage e) ''INVALID'' \<longrightarrow>
      (\<exists>s \<in> set userFacingMessages.
         processMessage Extended net (JStr u) (JStr m) w =
           (Inr (JStr s), w1\<lparr>sheet := sheet w1 @ logBuffer w1 @ [systemRow u e],
                              logBuffer := []\<rparr>)))
   \<and> fst (processMessage_catch Extended u (Error NO_API_KEY) w1) = Inr (JStr USER_API_ERROR)
   \<and> fst (processMessage_catch Extended u (Error (SHEET_HEAD @ PROMPT @ SHEET_TAIL)) w1)
       = Inr (JStr USER_GENERIC_ERROR)"
proof (intro conjI impI)
  assume "\<not> truthy userId \<or> \<not> isString userId"
  then show "processMessage v net userId message w = (Inl (Error INVALID_USER_ID), w)"
    by (auto simp add: processMessage_def)
next
  assume "truthy userId \<and> isString userId \<and> (\<not> truthy message \<or> \<not> isString message)"
  then show "processMessage v net userId message w = (Inl (Error INVALID_MESSAGE), w)"
    by (auto simp add: processMessage_def)
next
  assume "u \<noteq> [] \<and> m \<noteq> [] \<and> processMessage_try Base net u m w = (Inl e, w1)"
  then show "processMessage Base net (JStr u) (JStr m) w = (Inl e, w1)"
    by (simp add: processMessage_valid processMessage_catch.simps)
next
  assume a: "u \<noteq> [] \<and> m \<noteq> [] \<and> processMessage_try Extended net u m w = (Inl e, w1)
        \<and> \<not> includes_js (emessage e) ''INVALID''"
  then have "processMessage Extended net (JStr u) (JStr m) w = processMessage_catch Extended u e w1"
    by (simp add: processMessage_valid)
  then show "\<exists>s \<in> set userFacingMessages.
         processMessage Extended net (JStr u) (JStr m) w =
           (Inr (JStr s), w1\<lparr>sheet := sheet w1 @ logBuffer w1 @ [systemRow u e],
                              logBuffer := []\<rparr>)"
    using catch_Extended [of e u w1] a by simp
qed (rule catch_known_errors)+

lemma digits_500: "digits 500 = ''500''"
  by (simp add: digits.simps digitChar_def)

lemma aiCall_world0_500:
  "aiCallResult v always500 ''u1'' ''hello'' world0 = Inl (Error (API_CALL_FAILED @ '': 500''))"
  using aiCall_terminal [where net = always500 and c = 500 and u = "''u1''" and m = "''hello''",
      OF world0_key [of v] world0_prompt [of v]]
  by (simp add: always500_def digits_500)

lemma try_fails_obtain:
  assumes "aiCallResult v net u m w = Inl e"
  shows "processMessage_try v net u m w = (Inl e, snd (processMessage_try v net u m w))"
  using assms try_result [of v net u m w] by (cases "processMessage_try v net u m w") simp

lemma call_failed_500_not_INVALID: "\<not> includes_js (API_CALL_FAILED @ '': 500'') ''INVALID''"
  by (simp add: API_CALL_FAILED_def)

theorem error_policy_witness:
  "processMessage Base always500 (JStr []) (JStr ''hello'') world0
     = (Inl (Error INVALID_USER_ID), world0)
   \<and> processMessage Base always500 (JStr ''u1'') (JStr []) world0
     = (Inl (Error INVALID_MESSAGE), world0)
   \<and> fst (processMessage_try Base always500 ''u1'' ''hello'' world0)
     = Inl (Error (API_CALL_FAILED @ '': 500''))
   \<and> fst (processMessage Base always500 (JStr ''u1'') (JStr ''hello'') world0)
     = Inl (Error (API_CALL_FAILED @ '': 500''))
   \<and> fst (processMessage_try Extended always500 ''u1'' ''hello'' world0)
     = Inl (Error (API_CALL_FAILED @ '': 500''))
   \<and> \<not> includes_js (API_CALL_FAILED @ '': 500'') ''INVALID''
   \<and> (\<exists>s \<in> set userFacingMessages.
         fst (processMessage Extended always500 (JStr ''u1'') (JStr ''hello'') world0)
           = Inr (JStr s))"
proof -
  let ?e = "Error (API_CALL_FAILED @ '': 500'')"
  obtain wB where tB: "processMessage_try Base always500 ''u1'' ''hello'' world0 = (Inl ?e, wB)"
    using try_fails_obtain [OF aiCall_world0_500] by blast
  obtain wE where tE: "processMessage_try Extended always500 ''u1'' ''hello'' world0 = (Inl ?e, wE)"
    using try_fails_obtain [OF aiCall_world0_500] by blast
  have ni: "\<not> includes_js (emessage ?e) ''INVALID''"
    using call_failed_500_not_INVALID by (simp add: Error_def)
  note P1 = error_policy [of "JStr []" Base always500 "JStr ''hello''" world0]
  note P2 = error_policy [of "JStr ''u1''" Base always500 "JStr []" world0]
  note P3 = error_policy [where u = "''u1''" and m = "''hello''" and net = always500
      and w = world0 and e = ?e and ?w1.0 = wB]
  note P4 = error_policy [where u = "''u1''" and m = "''hello''" and net = always500
      and w = world0 and e = ?e and ?w1.0 = wE]
  have 1: "processMessage Base always500 (JStr []) (JStr ''hello'') world0
     = (Inl (Error INVALID_USER_ID), world0)" using P1 by simp
  have 2: "processMessage Base always500 (JStr ''u1'') (JStr []) world0
     = (Inl (Error INVALID_MESSAGE), world0)" using P2 by simp
  have "processMessage Base always500 (JStr ''u1'') (JStr ''hello'') world0 = (Inl ?e, wB)"
    using P3 tB by simp
  then have 3: "fst (processMessage Base always500 (JStr ''u1'') (JStr ''hello'') world0) = Inl ?e"
    by simp
  have 4: "\<exists>s \<in> set userFacingMessages.
         fst (processMessage Extended always500 (JStr ''u1'') (JStr ''hello'') world0)
           = Inr (JStr s)"
  proof -
    from P4 tE ni obtain s where "s \<in> set userFacingMessages"
      "processMessage Extended always500 (JStr ''u1'') (JStr ''hello'') world0 =
           (Inr (JStr s), wE\<lparr>sheet := sheet wE @ logBuffer wE @ [systemRow ''u1'' ?e],
                              logBuffer := []\<rparr>)"
      by blast
    then show ?thesis by (metis fst_conv)
  qed
  show ?thesis
    using 1 2 3 4 tB tE call_failed_500_not_INVALID by simp
qed

lemma no_key_rethrown: "callGeminiAPI_catch (Error NO_API_KEY) = Rethrow (Error NO_API_KEY)"
  by (simp add: callGeminiAPI_catch_def isNetworkError_def toString_def Error_def NO_API_KEY_def
        TRANSIENT_MARK_def)

lemma worldNoKey_key: "fst (getApiKey v worldNoKey) = Inl (Error NO_API_KEY)"
  by (cases v) (simp_all add: worldNoKey_def world0_def readApiKeyProperty_def)

lemma worldNoKey_prompt: "fst (getSystemPrompt v worldNoKey) = Inr (JStr ''Be brief.'')"
  by (cases v) (simp_all add: worldNoKey_def world0_def readPromptSheet_def)

text \<open>
  C2 as stated fails: in the extended file the missing API key does not reach the caller;
  \<open>processMessage\<close> returns the user-facing API text instead.
\<close>

theorem missing_api_key_is_converted:
  "fst (getApiKey Extended worldNoKey) = Inl (Error NO_API_KEY)
   \<and> fst (processMessage_try Extended always500 ''u1'' ''hello'' worldNoKey) = Inl (Error NO_API_KEY)
   \<and> fst (processMessage Extended always500 (JStr ''u1'') (JStr ''hello'') worldNoKey)
       = Inr (JStr USER_API_ERROR)"
proof -
  have a: "aiCallResult Extended always500 ''u1'' ''hello'' worldNoKey = Inl (Error NO_API_KEY)"
    by (rule aiCall_no_key [OF worldNoKey_key worldNoKey_prompt no_key_rethrown])
  then have t: "fst (processMessage_try Extended always500 ''u1'' ''hello'' worldNoKey)
                 = Inl (Error NO_API_KEY)"
    by (simp add: try_result)
  obtain w1 where t1: "processMessage_try Extended always500 ''u1'' ''hello'' worldNoKey
                         = (Inl (Error NO_API_KEY), w1)"
    using try_fails_obtain [OF a] by blast
  have "processMessage Extended always500 (JStr ''u1'') (JStr ''hello'') worldNoKey =
          processMessage_catch Extended ''u1'' (Error NO_API_KEY) w1"
    by (simp add: processMessage_valid t1)
  then have "fst (processMessage Extended always500 (JStr ''u1'') (JStr ''hello'') worldNoKey)
       = Inr (JStr USER_API_ERROR)"
    by (simp only: catch_known_errors)
  then show ?thesis using t worldNoKey_key by blast
qed

lemma failed_cache:
  assumes "u \<noteq> []" "m \<noteq> []" "aiCallResult v net u m w = Inl e"
  shows "cache (snd (processMessage v net (JStr u) (JStr m) w))
           = cache (snd (getConversationHistory v (Some u) w))"
proof -
  obtain w1 where t: "processMessage_try v net u m w = (Inl e, w1)"
    using try_fails_obtain [OF assms(3)] by blast
  have "cache w1 = cache (snd (getConversationHistory v (Some u) w))"
    using try_outcome [OF t] by simp
  then show ?thesis using assms(1,2) by (simp add: processMessage_valid t)
qed

lemma loaded_cache:
  "cache (snd (getConversationHistory v (Some u) w)) =
     (if v = Base \<or> cache w \<noteq> None \<or> u = [] then cache w
      else if restoreHistoryFromLogSheet u MAX_HISTORY_LENGTH (sheet w) = [] then None
      else Some [u \<mapsto> restoreHistoryFromLogSheet u MAX_HISTORY_LENGTH (sheet w)])"
  by (cases v) (auto simp add: Let_def saveConversationHistory_def split: option.splits)

lemma worldLogged_key: "fst (getApiKey v worldLogged) = Inr ''key''"
  by (cases v) (simp_all add: worldLogged_def world0_def readApiKeyProperty_def)

lemma worldLogged_prompt: "fst (getSystemPrompt v worldLogged) = Inr (JStr ''Be brief.'')"
  by (cases v) (simp_all add: worldLogged_def world0_def readPromptSheet_def)

lemma aiCall_worldLogged_500:
  "aiCallResult v always500 ''u1'' ''again'' worldLogged = Inl (Error (API_CALL_FAILED @ '': 500''))"
  using aiCall_terminal [where net = always500 and c = 500 and u = "''u1''" and m = "''again''",
      OF worldLogged_key [of v] worldLogged_prompt [of v]]
  by (simp add: always500_def digits_500)

lemma worldLogged_restore:
  "restoreHistoryFromLogSheet ''u1'' MAX_HISTORY_LENGTH (sheet worldLogged) = [userTurn ''hello'']"
  by (simp add: worldLogged_def world0_def restoreHistoryFromLogSheet_def userTurn_def
        MAX_HISTORY_LENGTH_def)

text \<open>
  C9, as the code has it. When the call of the endpoint made by \<open>processMessage\<close> fails,
  nothing is written to the cache after the history was loaded: the cache holds what
  \<open>getConversationHistory\<close> left. That is the cache as it was in the base file, and in the
  extended file when the entry was present; when the entry was missing, the extended file
  has written back the conversation restored from the rows the log sheet held before the
  call, or nothing when there is none to restore.
\<close>

theorem failed_call_keeps_loaded_cache:
  assumes "u \<noteq> []" "m \<noteq> []" "aiCallResult v net u m w = Inl e"
  shows "cache (snd (processMessage v net (JStr u) (JStr m) w))
           = cache (snd (getConversationHistory v (Some u) w))
       \<and> (v = Base \<or> cache w \<noteq> None \<longrightarrow>
            cache (snd (processMessage v net (JStr u) (JStr m) w)) = cache w)
       \<and> (v = Extended \<and> cache w = None \<longrightarrow>
            cache (snd (processMessage v net (JStr u) (JStr m) w)) =
              (if restoreHistoryFromLogSheet u MAX_HISTORY_LENGTH (sheet w) = [] then None
               else Some [u \<mapsto> restoreHistoryFromLogSheet u MAX_HISTORY_LENGTH (sheet w)]))"
proof -
  have a: "cache (snd (processMessage v net (JStr u) (JStr m) w))
            = cache (snd (getConversationHistory v (Some u) w))"
    by (rule failed_cache [OF assms])
  show ?thesis using assms(1) by (simp only: a loaded_cache) auto
qed

theorem failed_call_keeps_loaded_cache_witness:
  "aiCallResult Base always500 ''u1'' ''hello'' world0 = Inl (Error (API_CALL_FAILED @ '': 500''))
   \<and> cache (snd (processMessage Base always500 (JStr ''u1'') (JStr ''hello'') world0))
       = cache world0
   \<and> aiCallResult Extended always500 ''u1'' ''again'' worldLogged
       = Inl (Error (API_CALL_FAILED @ '': 500''))
   \<and> cache worldLogged = None
   \<and> cache (snd (processMessage Extended always500 (JStr ''u1'') (JStr ''again'') worldLogged))
       = Some [''u1'' \<mapsto> [userTurn ''hello'']]"
proof -
  have n: "''u1'' \<noteq> []" "''hello'' \<noteq> []" "''again'' \<noteq> []" by simp_all
  have c: "cache worldLogged = None" by (simp add: worldLogged_def world0_def)
  from failed_call_keeps_loaded_cache [OF n(1) n(2) aiCall_world0_500 [of Base]]
  have 1: "cache (snd (processMessage Base always500 (JStr ''u1'') (JStr ''hello'') world0))
       = cache world0" by blast
  from failed_call_keeps_loaded_cache [OF n(1) n(3) aiCall_worldLogged_500 [of Extended]]
  have "cache (snd (processMessage Extended always500 (JStr ''u1'') (JStr ''again'') worldLogged)) =
          (if restoreHistoryFromLogSheet ''u1'' MAX_HISTORY_LENGTH (sheet worldLogged) = [] then None
           else Some [''u1'' \<mapsto> restoreHistoryFromLogSheet ''u1'' MAX_HISTORY_LENGTH
                                     (sheet worldLogged)])"
    using c by blast
  then have 2: "cache (snd (processMessage Extended always500 (JStr ''u1'') (JStr ''again'')
                              worldLogged)) = Some [''u1'' \<mapsto> [userTurn ''hello'']]"
    by (simp only: worldLogged_restore) simp
  show ?thesis using 1 2 c aiCall_world0_500 [of Base] aiCall_worldLogged_500 [of Extended]
    by blast
qed

text \<open>
  C9 as stated fails: in the extended file, with the cache entry expired and a row of
  the user in the log sheet, a failed call leaves a cache that differs from the one before.
\<close>

theorem failed_call_writes_restored_history:
  "aiCallResult Extended always500 ''u1'' ''again'' worldLogged
       = Inl (Error (API_CALL_FAILED @ '': 500''))
   \<and> cache (snd (processMessage Extended always500 (JStr ''u1'') (JStr ''again'') worldLogged))
       \<noteq> cache worldLogged"
proof -
  have n: "''u1'' \<noteq> []" "''again'' \<noteq> []" by simp_all
  have c: "cache worldLogged = None" by (simp add: worldLogged_def world0_def)
  have "cache (snd (processMessage Extended always500 (JStr ''u1'') (JStr ''again'') worldLogged))
       = Some [''u1'' \<mapsto> [userTurn ''hello'']]"
    using c by (simp only: failed_cache [OF n aiCall_worldLogged_500] loaded_cache
          worldLogged_restore) simp
  then show ?thesis using c aiCall_worldLogged_500 [of Extended] by simp
qed

section \<open>What the writers of the cache keep\<close>

lemma trim_subset: "set (trimConversationHistory v h) \<subseteq> set h"
proof (cases v)
  case Base
  then show ?thesis by (auto dest: in_set_dropD)
next
  case Extended
  have "set (slice_js (filter (\<lambda>msg. role msg \<noteq> ''system'') h) i) \<subseteq> set h" for i
    by (auto simp add: slice_js_def Let_def dest: in_set_dropD)
  then show ?thesis using Extended by (auto simp add: Let_def)
qed

lemma trim_Base_bounded: "length (trimConversationHistory Base h) \<le> MAX_HISTORY_LENGTH"
  by simp

lemma trim_bounded:
  assumes "''system'' \<notin> role ` set h"
  shows "length (trimConversationHistory v h) \<le> MAX_HISTORY_LENGTH"
proof -
  have ns: "\<forall>t \<in> set h. role t \<noteq> ''system''"
  proof
    fix t assume "t \<in> set h"
    then have "role t \<in> role ` set h" by (rule imageI)
    then show "role t \<noteq> ''system''" using assms by metis
  qed
  have e: "trimConversationHistory v h = trimConversationHistory Base h"
    using trim_Extended_no_system [OF ns] by (cases v) simp_all
  show ?thesis unfolding e by (rule trim_Base_bounded)
qed

lemma restore_set:
  "set (restoreHistoryFromLogSheet u limit data) \<subseteq> turnOfRow ` {r \<in> set data. restorable u r}"
  by (auto simp add: restoreHistoryFromLogSheet_eq Let_def dest: in_set_dropD)

lemma restore_conversationBounded:
  "conversationBounded (restoreHistoryFromLogSheet u MAX_HISTORY_LENGTH data)"
proof -
  have "length (restoreHistoryFromLogSheet u MAX_HISTORY_LENGTH data) \<le> MAX_HISTORY_LENGTH"
    by (simp add: restoreHistoryFromLogSheet_eq Let_def)
  moreover have "''system'' \<notin> role ` set (restoreHistoryFromLogSheet u MAX_HISTORY_LENGTH data)"
    using restore_set [of u MAX_HISTORY_LENGTH data]
    by (auto simp add: restorable_def turnOfRow_def)
  ultimately show ?thesis by (simp add: conversationBounded_def)
qed

lemma restore_onePartEach: "onePartEach (restoreHistoryFromLogSheet u limit data)"
  using restore_set [of u limit data]
  by (auto simp add: onePartEach_def list_all_iff turnOfRow_def)

lemma conversationBounded_kept: "keptByChat v conversationBounded"
proof -
  have "conversationBounded (trimConversationHistory v (h @ [userTurn m]) @ [modelTurn response])"
    if "conversationBounded h" for h m response
  proof -
    have ns: "''system'' \<notin> role ` set (h @ [userTurn m])"
      using that by (auto simp add: conversationBounded_def userTurn_def)
    have "''system'' \<notin> role ` set (trimConversationHistory v (h @ [userTurn m]))"
      using ns trim_subset [of v "h @ [userTurn m]"] by blast
    then show ?thesis
      using trim_bounded [OF ns, of v]
      by (simp add: conversationBounded_def modelTurn_def del: trimConversationHistory.simps)
  qed
  then show ?thesis
    by (simp add: keptByChat_def restore_conversationBounded del: trimConversationHistory.simps)
       (simp add: conversationBounded_def)
qed

lemma onePartEach_kept: "keptByChat v onePartEach"
proof -
  have "onePartEach (trimConversationHistory v (h @ [userTurn m]) @ [modelTurn response])"
    if "onePartEach h" for h m response
  proof -
    have "list_all (\<lambda>t. length (parts t) = 1) (h @ [userTurn m])"
      using that by (simp add: onePartEach_def userTurn_def)
    then have "list_all (\<lambda>t. length (parts t) = 1) (trimConversationHistory v (h @ [userTurn m]))"
      using trim_subset [of v "h @ [userTurn m]"] unfolding list_all_iff by blast
    then show ?thesis
      by (simp add: onePartEach_def modelTurn_def del: trimConversationHistory.simps)
  qed
  then show ?thesis
    by (simp add: keptByChat_def restore_onePartEach del: trimConversationHistory.simps)
       (simp add: onePartEach_def)
qed

lemma loaded_kept:
  assumes "keptByChat v P" and "everyStored P w"
  shows "(\<forall>u' h. fst (getConversationHistory v userId w) u' = Some h \<longrightarrow> P h)
       \<and> everyStored P (snd (getConversationHistory v userId w))"
proof (cases "cache w")
  case (Some st)
  then show ?thesis using assms(2) by (cases v) (simp_all add: everyStored_def)
next
  case None
  show ?thesis
  proof (cases v)
    case Base
    then show ?thesis using None by (simp add: everyStored_def)
  next
    case Extended
    have "P (restoreHistoryFromLogSheet u MAX_HISTORY_LENGTH (sheet w))" for u
      using assms(1) by (simp add: keptByChat_def)
    then show ?thesis using None Extended
      by (cases userId) (simp_all add: everyStored_def Let_def saveConversationHistory_def)
  qed
qed

lemma historyOf_kept:
  assumes "keptByChat v P" and "\<forall>u' h. st u' = Some h \<longrightarrow> P h"
  shows "P (historyOf st u)"
  using assms by (auto simp add: keptByChat_def historyOf_def split: option.splits)

lemma step_kept:
  assumes "keptByChat v P" and "everyStored P w"
  shows "everyStored P (snd (processMessage v net userId message w))"
proof (cases "truthy userId \<and> isString userId \<and> truthy message \<and> isString message")
  case False
  then show ?thesis using assms(2) by (auto simp add: processMessage_def)
next
  case True
  then obtain u m where um: "userId = JStr u" "message = JStr m" "u \<noteq> []" "m \<noteq> []"
    by (cases userId; cases message) auto
  obtain r w' where t: "processMessage_try v net u m w = (r, w')"
    by (cases "processMessage_try v net u m w") auto
  note lo = loaded_kept [OF assms, of "Some u"]
  have st: "\<forall>u' h. loaded v u w u' = Some h \<longrightarrow> P h" using lo by (simp add: loaded_def)
  show ?thesis
  proof (cases r)
    case (Inl e)
    then have "cache w' = cache (snd (getConversationHistory v (Some u) w))"
      using try_outcome [OF t] by simp
    then have "everyStored P (snd (processMessage_catch v u e w'))"
      using lo by (simp add: everyStored_def)
    then show ?thesis using um t Inl by (simp add: processMessage_valid)
  next
    case (Inr response)
    then have c: "cache w' = Some ((loaded v u w)(u \<mapsto>
               trimConversationHistory v (historyOf (loaded v u w) u @ [userTurn m])
                 @ [modelTurn response]))"
      using try_outcome [OF t] by simp
    have "P (historyOf (loaded v u w) u)" using historyOf_kept [OF assms(1) st] .
    then have "P (trimConversationHistory v (historyOf (loaded v u w) u @ [userTurn m])
                 @ [modelTurn response])"
      using assms(1) unfolding keptByChat_def by blast
    then have "everyStored P w'" using st by (simp add: everyStored_def c)
    then show ?thesis using um t Inr by (simp add: processMessage_valid)
  qed
qed

lemma clear_kept:
  assumes "keptByChat v P" and "everyStored P w"
  shows "everyStored P (clearConversationHistory v userId w)"
proof (cases "case userId of None \<Rightarrow> False | Some u \<Rightarrow> u \<noteq> []")
  case False
  then show ?thesis by (simp add: clearConversationHistory_def everyStored_def)
next
  case True
  then obtain u where u: "userId = Some u" by (cases userId) auto
  note lo = loaded_kept [OF assms, of "Some u"]
  obtain st w1 where g: "getConversationHistory v (Some u) w = (st, w1)"
    by (cases "getConversationHistory v (Some u) w") auto
  have "\<forall>u' h. st u' = Some h \<longrightarrow> P h" "everyStored P w1" using lo g by simp_all
  then show ?thesis using True u g
    by (auto simp add: clearConversationHistory_def everyStored_def saveConversationHistory_def)
qed

lemma selfTest_kept:
  assumes "keptByChat v P"
  shows "everyStored P (saveConversationHistory
                          [testUserId \<mapsto> [userTurn question, modelTurn answer]] w)"
proof -
  have "P (trimConversationHistory v ([] @ [userTurn question]) @ [modelTurn answer])"
    using assms unfolding keptByChat_def by blast
  moreover have "trimConversationHistory v [userTurn question] = [userTurn question]"
    by (cases v) (simp_all add: MAX_HISTORY_LENGTH_def)
  ultimately show ?thesis
    by (simp add: everyStored_def saveConversationHistory_def
          del: trimConversationHistory.simps)
qed

text \<open>
  The base file has no \<open>importSession\<close>: there every reachable cache holds only
  conversations with a property that a chat keeps.
\<close>

lemma reachable_Base_kept:
  assumes "reachable v w" and "v = Base" and "keptByChat v P"
  shows "everyStored P w"
  using assms
proof (induction rule: reachable.induct)
  case (start w)
  then show ?case by (simp add: everyStored_def)
next
  case (message w net userId message)
  then show ?case by (simp add: step_kept)
next
  case (clear w userId)
  then show ?case by (simp add: clear_kept)
next
  case (load w userId)
  then show ?case using loaded_kept [of v P w userId] by simp
next
  case (imported w sessionUserId history)
  then show ?case by simp
next
  case (selfTest w testUserId question answer)
  then show ?case by (simp add: selfTest_kept)
next
  case (outside w w')
  then show ?case by (simp add: everyStored_def)
qed

section \<open>Stored conversations\<close>

lemma try_settings:
  "apiKeyProperty (snd (callGeminiAPI_try v net p a w)) = apiKeyProperty w
   \<and> promptSheet (snd (callGeminiAPI_try v net p a w)) = promptSheet w"
proof -
  let ?w1 = "if 0 < a then w\<lparr>events := events w @ [Sleep (baseDelay * 2 ^ (a - 1))]\<rparr> else w"
  have g: "apiKeyProperty (snd (getApiKey v ?w1)) = apiKeyProperty w"
    "promptSheet (snd (getApiKey v ?w1)) = promptSheet w"
    by (cases v; auto simp: readApiKeyProperty_def split: option.splits sum.splits)+
  show ?thesis
    unfolding callGeminiAPI_try_def getGeminiUrl_def Let_def
    by (cases "getApiKey v ?w1")
       (use g in \<open>auto split: sum.splits fetch_outcome.splits\<close>)
qed

lemma getSystemPrompt_settings2 [simp]:
  "apiKeyProperty (snd (getSystemPrompt v w)) = apiKeyProperty w"
  "promptSheet (snd (getSystemPrompt v w)) = promptSheet w"
  by (cases v; auto simp: readPromptSheet_def split: option.splits sum.splits)+

lemma callGeminiAPI_settings [simp]:
  "apiKeyProperty (snd (callGeminiAPI v net userId history w)) = apiKeyProperty w"
  "promptSheet (snd (callGeminiAPI v net userId history w)) = promptSheet w"
  unfolding callGeminiAPI_def buildApiPayload_def
  by (cases "getSystemPrompt v w"; cases "fst (getSystemPrompt v w)";
      use getSystemPrompt_settings2 [of v w] in
        \<open>simp add: loop_preserves [where f = apiKeyProperty]
           loop_preserves [where f = promptSheet] try_settings\<close>)+

lemma flush_settings [simp]:
  "apiKeyProperty (flushLogBuffer w) = apiKeyProperty w"
  "promptSheet (flushLogBuffer w) = promptSheet w"
  by (simp_all add: flushLogBuffer_def)

lemma catch_settings [simp]:
  "apiKeyProperty (snd (processMessage_catch v u e w)) = apiKeyProperty w"
  "promptSheet (snd (processMessage_catch v u e w)) = promptSheet w"
  by (cases v; simp add: processMessage_catch.simps Let_def)+

lemma try_body_settings:
  "apiKeyProperty (snd (processMessage_try v net u m w)) = apiKeyProperty w
   \<and> promptSheet (snd (processMessage_try v net u m w)) = promptSheet w"
proof -
  obtain st w1 where g: "getConversationHistory v (Some u) w = (st, w1)"
    by (cases "getConversationHistory v (Some u) w") auto
  have w1: "apiKeyProperty w1 = apiKeyProperty w" "promptSheet w1 = promptSheet w"
    using getConversationHistory_settings(1,3) [of v "Some u" w] g by simp_all
  define h2 where "h2 = trimConversationHistory v (addMessageToHistory
      (case st u of None \<Rightarrow> [] | Some h \<Rightarrow> h) ''user'' (JStr m))"
  define w2 where "w2 = logChat v u ''user'' (JStr m) w1"
  obtain r3 w3 where c: "callGeminiAPI v net u h2 w2 = (r3, w3)"
    by (cases "callGeminiAPI v net u h2 w2") auto
  have "apiKeyProperty (snd (callGeminiAPI v net u h2 w2)) = apiKeyProperty w2"
    "promptSheet (snd (callGeminiAPI v net u h2 w2)) = promptSheet w2" by simp_all
  then have w3: "apiKeyProperty w3 = apiKeyProperty w" "promptSheet w3 = promptSheet w"
    unfolding c by (simp_all add: w2_def w1)
  show ?thesis
    using w3
    by (simp add: processMessage_try_def g Let_def h2_def [symmetric] w2_def [symmetric] c
          saveConversationHistory_def split: sum.splits)
qed

lemma processMessage_settings:
  "apiKeyProperty (snd (processMessage v net userId message w)) = apiKeyProperty w
   \<and> promptSheet (snd (processMessage v net userId message w)) = promptSheet w"
  using try_body_settings [of v net "stringOf userId" "stringOf message" w]
  by (cases "processMessage_try v net (stringOf userId) (stringOf message) w")
     (auto simp add: processMessage_def split: sum.splits)

lemma aiCall_returns:
  assumes "fst (getApiKey v w) = Inr k" and "fst (getSystemPrompt v w) = Inr prompt"
    and "net 0 = Response 200 (Inr j)" and "extractResponseText j = Inr t"
  shows "aiCallResult v net u m w = Inr t"
  unfolding aiCallResult_def
  by (rule callGeminiAPI_returns [where net = net, OF _ _ assms(3,4)])
     (simp_all add: getApiKey_settings [where w = w] getSystemPrompt_settings [where w = w] assms)

lemma success_cache:
  assumes "u \<noteq> []" "m \<noteq> []" "aiCallResult v net u m w = Inr t"
  shows "cache (snd (processMessage v net (JStr u) (JStr m) w)) =
           Some ((loaded v u w)(u \<mapsto>
              trimConversationHistory v (historyOf (loaded v u w) u @ [userTurn m])
                @ [modelTurn t]))"
proof -
  obtain r w1 where t: "processMessage_try v net u m w = (r, w1)"
    by (cases "processMessage_try v net u m w") auto
  then have r: "r = Inr t" using try_result [of v net u m w] assms(3) by simp
  show ?thesis
    using try_outcome [OF t] assms(1,2) by (simp add: processMessage_valid t r)
qed

lemma okReply_text: "extractResponseText (envelope (JObj [(''text'', JStr ''ok'')])) = Inr (JStr ''ok'')"
  by (simp add: extractResponseText_envelope)

lemma exchange_Base:
  assumes "apiKeyProperty w = Some ''key''" and "promptSheet w = Some (JStr ''Be brief.'')"
  shows "apiKeyProperty (exchange Base w) = Some ''key''
       \<and> promptSheet (exchange Base w) = Some (JStr ''Be brief.'')
       \<and> cache (exchange Base w) \<noteq> None
       \<and> conversationOf (exchange Base w) ''u1'' =
           trimConversationHistory Base (conversationOf w ''u1'' @ [userTurn ''hello''])
             @ [modelTurn (JStr ''ok'')]"
proof -
  have k: "fst (getApiKey Base w) = Inr ''key''"
    using assms(1) by (simp add: readApiKeyProperty_def)
  have p: "fst (getSystemPrompt Base w) = Inr (JStr ''Be brief.'')"
    using assms(2) by (simp add: readPromptSheet_def)
  have a: "aiCallResult Base okReply ''u1'' ''hello'' w = Inr (JStr ''ok'')"
    by (rule aiCall_returns [where net = okReply, OF k p _ okReply_text]) (simp add: okReply_def)
  have l: "historyOf (loaded Base ''u1'' w) ''u1'' = conversationOf w ''u1''"
    by (simp add: loaded_def conversationOf_def historyOf_def split: option.splits)
  have c: "cache (exchange Base w) = Some ((loaded Base ''u1'' w)(''u1'' \<mapsto>
              trimConversationHistory Base (conversationOf w ''u1'' @ [userTurn ''hello''])
                @ [modelTurn (JStr ''ok'')]))"
    unfolding exchange_def using success_cache [OF _ _ a] by (simp only: l) simp
  show ?thesis
    using assms processMessage_settings [of Base okReply "JStr ''u1''" "JStr ''hello''" w]
    by (simp add: exchange_def [symmetric] c conversationOf_def historyOf_def
          del: trimConversationHistory.simps)
qed

lemma exchange_Base_length:
  assumes "apiKeyProperty w = Some ''key''" and "promptSheet w = Some (JStr ''Be brief.'')"
  shows "length (conversationOf (exchange Base w) ''u1'')
          = min (Suc (length (conversationOf w ''u1''))) MAX_HISTORY_LENGTH + 1"
  using exchange_Base [OF assms] by (auto simp add: MAX_HISTORY_LENGTH_def)

lemma sixExchanges_length: "length (conversationOf sixExchanges ''u1'') = 11"
proof -
  define w1 where "w1 = exchange Base world0"
  define w2 where "w2 = exchange Base w1"
  define w3 where "w3 = exchange Base w2"
  define w4 where "w4 = exchange Base w3"
  define w5 where "w5 = exchange Base w4"
  have s0: "apiKeyProperty world0 = Some ''key''" "promptSheet world0 = Some (JStr ''Be brief.'')"
    "length (conversationOf world0 ''u1'') = 0"
    by (simp_all add: world0_def conversationOf_def)
  have s1: "apiKeyProperty w1 = Some ''key''" "promptSheet w1 = Some (JStr ''Be brief.'')"
    "length (conversationOf w1 ''u1'') = 2"
    unfolding w1_def using exchange_Base [OF s0(1,2)] exchange_Base_length [OF s0(1,2)] s0(3)
    by (simp_all add: MAX_HISTORY_LENGTH_def)
  have s2: "apiKeyProperty w2 = Some ''key''" "promptSheet w2 = Some (JStr ''Be brief.'')"
    "length (conversationOf w2 ''u1'') = 4"
    unfolding w2_def using exchange_Base [OF s1(1,2)] exchange_Base_length [OF s1(1,2)] s1(3)
    by (simp_all add: MAX_HISTORY_LENGTH_def)
  have s3: "apiKeyProperty w3 = Some ''key''" "promptSheet w3 = Some (JStr ''Be brief.'')"
    "length (conversationOf w3 ''u1'') = 6"
    unfolding w3_def using exchange_Base [OF s2(1,2)] exchange_Base_length [OF s2(1,2)] s2(3)
    by (simp_all add: MAX_HISTORY_LENGTH_def)
  have s4: "apiKeyProperty w4 = Some ''key''" "promptSheet w4 = Some (JStr ''Be brief.'')"
    "length (conversationOf w4 ''u1'') = 8"
    unfolding w4_def using exchange_Base [OF s3(1,2)] exchange_Base_length [OF s3(1,2)] s3(3)
    by (simp_all add: MAX_HISTORY_LENGTH_def)
  have s5: "apiKeyProperty w5 = Some ''key''" "promptSheet w5 = Some (JStr ''Be brief.'')"
    "length (conversationOf w5 ''u1'') = 10"
    unfolding w5_def using exchange_Base [OF s4(1,2)] exchange_Base_length [OF s4(1,2)] s4(3)
    by (simp_all add: MAX_HISTORY_LENGTH_def)
  have "sixExchanges = exchange Base w5"
    by (simp add: sixExchanges_def w1_def w2_def w3_def w4_def w5_def)
  then show ?thesis
    using exchange_Base_length [OF s5(1,2)] s5(3) by (simp add: MAX_HISTORY_LENGTH_def)
qed

lemma sixExchanges_reachable: "reachable Base sixExchanges"
proof -
  have "reachable Base world0" by (rule reachable.start) (simp add: world0_def)
  then show ?thesis
    unfolding sixExchanges_def exchange_def by (intro reachable.message)
qed

lemma sixExchanges_cache:
  "\<exists>st h. cache sixExchanges = Some st \<and> st ''u1'' = Some h \<and> length h = 11"
proof -
  have "conversationOf sixExchanges ''u1'' \<noteq> []" using sixExchanges_length by auto
  then obtain st h where "cache sixExchanges = Some st" "st ''u1'' = Some h"
    "conversationOf sixExchanges ''u1'' = h"
    by (auto simp add: conversationOf_def historyOf_def split: option.splits)
  then show ?thesis using sixExchanges_length by auto
qed

lemma trim_keeps_newest:
  assumes "role t \<noteq> ''system''"
  shows "\<exists>older. trimConversationHistory v (h0 @ [t]) = older @ [t]"
proof (cases "length (h0 @ [t]) > MAX_HISTORY_LENGTH")
  case False
  then show ?thesis by (cases v) auto
next
  case True
  show ?thesis
  proof (cases v)
    case Base
    have "length (h0 @ [t]) - MAX_HISTORY_LENGTH \<le> length h0"
      by (simp add: MAX_HISTORY_LENGTH_def)
    then have "drop (length (h0 @ [t]) - MAX_HISTORY_LENGTH) (h0 @ [t])
                 = drop (length (h0 @ [t]) - MAX_HISTORY_LENGTH) h0 @ [t]"
      by simp
    then show ?thesis using True Base by auto
  next
    case Extended
    define c0 where "c0 = filter (\<lambda>msg. role msg \<noteq> ''system'') h0"
    define k where "k = (let n = int (length (c0 @ [t]));
                             start = int (length (c0 @ [t])) - int MAX_HISTORY_LENGTH
                         in nat (if start < 0 then max (n + start) 0 else min start n))"
    have kl: "k \<le> length c0"
      by (auto simp add: k_def Let_def MAX_HISTORY_LENGTH_def)
    have f: "filter (\<lambda>msg. role msg \<noteq> ''system'') (h0 @ [t]) = c0 @ [t]"
      using assms by (simp add: c0_def)
    have "slice_js (c0 @ [t]) (int (length (c0 @ [t])) - int MAX_HISTORY_LENGTH)
            = drop k (c0 @ [t])"
      by (simp add: slice_js_def k_def Let_def)
    also have "\<dots> = drop k c0 @ [t]" using kl by simp
    finally have "trimConversationHistory Extended (h0 @ [t]) =
                    (filter (\<lambda>msg. role msg = ''system'') (h0 @ [t]) @ drop k c0) @ [t]"
      using True by (simp add: f Let_def del: filter_append)
    then show ?thesis using Extended by blast
  qed
qed

lemma worldTenRows_restore:
  "restoreHistoryFromLogSheet ''u1'' MAX_HISTORY_LENGTH (sheet worldTenRows) =
     map userTurn [''m00'', ''m01'', ''m02'', ''m03'', ''m04'', ''m05'', ''m06'', ''m07'', ''m08'', ''m09'']"
  by (simp add: worldTenRows_def tenRows_def world0_def restoreHistoryFromLogSheet_eq
        restorable_def turnOfRow_def userTurn_def MAX_HISTORY_LENGTH_def)

lemma worldTenRows_loaded:
  "historyOf (loaded Extended ''u1'' worldTenRows) ''u1'' =
     map userTurn [''m00'', ''m01'', ''m02'', ''m03'', ''m04'', ''m05'', ''m06'', ''m07'', ''m08'', ''m09'']"
proof -
  have c: "cache worldTenRows = None" by (simp add: worldTenRows_def world0_def)
  show ?thesis
    using c worldTenRows_restore
    by (simp add: loaded_def historyOf_def Let_def saveConversationHistory_def)
qed

lemma worldTenRows_aiCall:
  "aiCallResult Extended okReply ''u1'' ''hello'' worldTenRows = Inr (JStr ''ok'')"
proof -
  have k: "fst (getApiKey Extended worldTenRows) = Inr ''key''"
    by (simp add: worldTenRows_def world0_def readApiKeyProperty_def)
  have p: "fst (getSystemPrompt Extended worldTenRows) = Inr (JStr ''Be brief.'')"
    by (simp add: worldTenRows_def world0_def readPromptSheet_def)
  show ?thesis
    by (rule aiCall_returns [where net = okReply, OF k p _ okReply_text]) (simp add: okReply_def)
qed

lemma imported_key:
  "history \<noteq> [] \<Longrightarrow> fst (getApiKey v (importSession u history world0)) = Inr ''key''"
  by (cases v)
     (simp_all add: importSession_def saveConversationHistory_def world0_def
        readApiKeyProperty_def)

lemma imported_prompt:
  "history \<noteq> [] \<Longrightarrow>
   fst (getSystemPrompt v (importSession u history world0)) = Inr (JStr ''Be brief.'')"
  by (cases v)
     (simp_all add: importSession_def saveConversationHistory_def world0_def
        readPromptSheet_def)

lemma imported_aiCall:
  "history \<noteq> [] \<Longrightarrow>
   aiCallResult v okReply ''u1'' ''hello'' (importSession u history world0) = Inr (JStr ''ok'')"
  by (rule aiCall_returns [where net = okReply, OF imported_key imported_prompt _ okReply_text])
     (simp_all add: okReply_def)

lemma imported_reachable: "reachable Extended (exchange Extended (importSession u history world0))"
proof -
  have "reachable Extended world0" by (rule reachable.start) (simp add: world0_def)
  then have "reachable Extended (importSession u history world0)"
    by (rule reachable.imported [OF refl])
  then show ?thesis unfolding exchange_def by (rule reachable.message)
qed

lemma imported_loaded:
  "history \<noteq> [] \<Longrightarrow> loaded v u' (importSession u history world0) = [u \<mapsto> history]"
  by (cases v)
     (simp_all add: loaded_def importSession_def saveConversationHistory_def world0_def)

text \<open>
  C1, as the code has it. \<open>processMessage\<close> trims after appending the user turn and before
  calling the endpoint, and appends the reply after the call. In the base file, in every
  reachable state (from any state with no cache entry, by calls of \<open>processMessage\<close> with
  any arguments and any behaviour of the endpoint, by the other writers of the cache entry,
  and by any change outside the script that leaves the cache entry alone) every stored
  conversation has at most \<open>MAX_HISTORY_LENGTH + 1\<close> turns. In both files \<open>processMessage\<close>,
  \<open>clearConversationHistory\<close> and the load with its restore keep the cache bounded, that
  is, every stored conversation at most \<open>MAX_HISTORY_LENGTH + 1\<close> turns long and without a
  turn of role system; \<open>importSession\<close> of the extended file does not. And in any state
  whatever, when (in the extended file) the conversation loaded for the calling user holds
  no turn of role system, the conversation sent to the endpoint has at most
  \<open>MAX_HISTORY_LENGTH\<close> turns and, when the call succeeds, the conversation stored for that
  user has at most \<open>MAX_HISTORY_LENGTH + 1\<close>.
\<close>

theorem stored_conversation_bounded:
  "(reachable Base w \<and> cache w = Some st \<and> st u = Some h \<longrightarrow>
      length h \<le> MAX_HISTORY_LENGTH + 1)
   \<and> (everyStored conversationBounded w \<longrightarrow>
        everyStored conversationBounded (snd (processMessage v net userId message w))
        \<and> everyStored conversationBounded (clearConversationHistory v clearedId w)
        \<and> everyStored conversationBounded (snd (getConversationHistory v loadedId w)))
   \<and> ((v = Extended \<longrightarrow> ''system'' \<notin> role ` set (historyOf (loaded v u w) u)) \<longrightarrow>
        length (trimConversationHistory v (historyOf (loaded v u w) u @ [userTurn m]))
          \<le> MAX_HISTORY_LENGTH
        \<and> (u \<noteq> [] \<and> m \<noteq> [] \<and> aiCallResult v net u m w = Inr reply \<longrightarrow>
             length (conversationOf (snd (processMessage v net (JStr u) (JStr m) w)) u)
               \<le> MAX_HISTORY_LENGTH + 1))"
proof -
  have 1: "reachable Base w \<and> cache w = Some st \<and> st u = Some h \<longrightarrow>
             length h \<le> MAX_HISTORY_LENGTH + 1"
  proof
    assume a: "reachable Base w \<and> cache w = Some st \<and> st u = Some h"
    then have "everyStored conversationBounded w"
      using reachable_Base_kept [OF _ refl conversationBounded_kept] by blast
    then show "length h \<le> MAX_HISTORY_LENGTH + 1"
      using a by (auto simp add: everyStored_def conversationBounded_def)
  qed
  have 2: "everyStored conversationBounded w \<longrightarrow>
        everyStored conversationBounded (snd (processMessage v net userId message w))
        \<and> everyStored conversationBounded (clearConversationHistory v clearedId w)
        \<and> everyStored conversationBounded (snd (getConversationHistory v loadedId w))"
    using step_kept [OF conversationBounded_kept] clear_kept [OF conversationBounded_kept]
      loaded_kept [OF conversationBounded_kept]
    by blast
  have 3: "(v = Extended \<longrightarrow> ''system'' \<notin> role ` set (historyOf (loaded v u w) u)) \<longrightarrow>
        length (trimConversationHistory v (historyOf (loaded v u w) u @ [userTurn m]))
          \<le> MAX_HISTORY_LENGTH
        \<and> (u \<noteq> [] \<and> m \<noteq> [] \<and> aiCallResult v net u m w = Inr reply \<longrightarrow>
             length (conversationOf (snd (processMessage v net (JStr u) (JStr m) w)) u)
               \<le> MAX_HISTORY_LENGTH + 1)"
  proof
    assume s: "v = Extended \<longrightarrow> ''system'' \<notin> role ` set (historyOf (loaded v u w) u)"
    let ?sent = "trimConversationHistory v (historyOf (loaded v u w) u @ [userTurn m])"
    have l: "length ?sent \<le> MAX_HISTORY_LENGTH"
    proof (cases v)
      case Base
      then show ?thesis using trim_Base_bounded by blast
    next
      case Extended
      then have "''system'' \<notin> role ` set (historyOf (loaded v u w) u @ [userTurn m])"
        using s by (auto simp add: userTurn_def)
      then show ?thesis by (rule trim_bounded)
    qed
    have "length (conversationOf (snd (processMessage v net (JStr u) (JStr m) w)) u)
               \<le> MAX_HISTORY_LENGTH + 1"
      if "u \<noteq> [] \<and> m \<noteq> [] \<and> aiCallResult v net u m w = Inr reply"
    proof -
      have "cache (snd (processMessage v net (JStr u) (JStr m) w)) =
              Some ((loaded v u w)(u \<mapsto> ?sent @ [modelTurn reply]))"
        using that success_cache by blast
      then have "conversationOf (snd (processMessage v net (JStr u) (JStr m) w)) u
                   = ?sent @ [modelTurn reply]"
        by (simp add: conversationOf_def historyOf_def del: trimConversationHistory.simps)
      then show ?thesis using l by (simp del: trimConversationHistory.simps)
    qed
    then show "length ?sent \<le> MAX_HISTORY_LENGTH
        \<and> (u \<noteq> [] \<and> m \<noteq> [] \<and> aiCallResult v net u m w = Inr reply \<longrightarrow>
             length (conversationOf (snd (processMessage v net (JStr u) (JStr m) w)) u)
               \<le> MAX_HISTORY_LENGTH + 1)"
      using l by blast
  qed
  show ?thesis by (rule conjI [OF 1 conjI [OF 2 3]])
qed

theorem stored_conversation_bounded_witness:
  "reachable Base sixExchanges
   \<and> (\<exists>st h. cache sixExchanges = Some st \<and> st ''u1'' = Some h
         \<and> length h \<le> MAX_HISTORY_LENGTH + 1)
   \<and> everyStored conversationBounded world0
   \<and> everyStored conversationBounded
       (snd (processMessage Extended okReply (JStr ''u1'') (JStr ''hello'') world0))
   \<and> everyStored conversationBounded (clearConversationHistory Extended (Some ''u1'') world0)
   \<and> everyStored conversationBounded (snd (getConversationHistory Extended (Some ''u1'') world0))
   \<and> ''system'' \<notin> role ` set (historyOf (loaded Extended ''u1'' worldTenRows) ''u1'')
   \<and> aiCallResult Extended okReply ''u1'' ''hello'' worldTenRows = Inr (JStr ''ok'')
   \<and> length (trimConversationHistory Extended
               (historyOf (loaded Extended ''u1'' worldTenRows) ''u1'' @ [userTurn ''hello'']))
       \<le> MAX_HISTORY_LENGTH
   \<and> length (conversationOf
               (snd (processMessage Extended okReply (JStr ''u1'') (JStr ''hello'') worldTenRows))
               ''u1'')
       \<le> MAX_HISTORY_LENGTH + 1"
proof -
  obtain st h where c: "cache sixExchanges = Some st" "st ''u1'' = Some h"
    using sixExchanges_cache by blast
  note A = stored_conversation_bounded [where w = sixExchanges and st = st and u = "''u1''"
      and h = h and v = Base]
  have 1: "length h \<le> MAX_HISTORY_LENGTH + 1"
    using A c sixExchanges_reachable by blast
  have e: "everyStored conversationBounded world0"
    by (simp add: everyStored_def world0_def)
  note B = stored_conversation_bounded [where w = world0 and v = Extended and net = okReply
      and userId = "JStr ''u1''" and message = "JStr ''hello''" and clearedId = "Some ''u1''"
      and loadedId = "Some ''u1''"]
  have 2: "everyStored conversationBounded
             (snd (processMessage Extended okReply (JStr ''u1'') (JStr ''hello'') world0))
         \<and> everyStored conversationBounded (clearConversationHistory Extended (Some ''u1'') world0)
         \<and> everyStored conversationBounded
             (snd (getConversationHistory Extended (Some ''u1'') world0))"
    using B e by blast
  have s: "''system'' \<notin> role ` set (historyOf (loaded Extended ''u1'' worldTenRows) ''u1'')"
    by (simp only: worldTenRows_loaded) (simp add: userTurn_def)
  note C = stored_conversation_bounded [where w = worldTenRows and v = Extended
      and net = okReply and u = "''u1''" and m = "''hello''" and reply = "JStr ''ok''"]
  have 3: "length (trimConversationHistory Extended
               (historyOf (loaded Extended ''u1'' worldTenRows) ''u1'' @ [userTurn ''hello'']))
             \<le> MAX_HISTORY_LENGTH
         \<and> length (conversationOf
               (snd (processMessage Extended okReply (JStr ''u1'') (JStr ''hello'') worldTenRows))
               ''u1'')
             \<le> MAX_HISTORY_LENGTH + 1"
    using C s worldTenRows_aiCall by blast
  show ?thesis using 1 2 3 c e s worldTenRows_aiCall sixExchanges_reachable by blast
qed

text \<open>
  C1 as stated fails: after six successful exchanges of one user, starting with no cache
  entry, the base file has stored eleven turns for that user.
\<close>

theorem six_exchanges_store_eleven_turns:
  "reachable Base sixExchanges
   \<and> (\<exists>st h. cache sixExchanges = Some st \<and> st ''u1'' = Some h
         \<and> length h = 11 \<and> MAX_HISTORY_LENGTH < length h)"
  using sixExchanges_reachable sixExchanges_cache by (auto simp add: MAX_HISTORY_LENGTH_def)

text \<open>
  In the extended file an imported history is under no bound. Twelve turns imported for
  user \<open>u2\<close> are still stored for \<open>u2\<close> after a successful exchange of user \<open>u1\<close>. And the
  extended trim keeps every turn of role system: after the import of twelve such turns for
  \<open>u1\<close>, the next call of \<open>u1\<close> sends thirteen turns and stores fourteen.
\<close>

lemma imported_history_outlives_exchange:
  "reachable Extended (exchange Extended worldImportedOther)
   \<and> conversationOf (exchange Extended worldImportedOther) ''u2'' = sampleHistory
   \<and> length sampleHistory = 12"
proof -
  have n: "sampleHistory \<noteq> []" by (simp add: sampleHistory_def)
  have "cache (exchange Extended worldImportedOther) =
          Some ((loaded Extended ''u1'' worldImportedOther)(''u1'' \<mapsto>
             trimConversationHistory Extended
               (historyOf (loaded Extended ''u1'' worldImportedOther) ''u1'' @ [userTurn ''hello''])
               @ [modelTurn (JStr ''ok'')]))"
    unfolding exchange_def worldImportedOther_def
    by (rule success_cache [OF _ _ imported_aiCall [OF n]]) simp_all
  then have "conversationOf (exchange Extended worldImportedOther) ''u2'' = sampleHistory"
    by (simp add: conversationOf_def historyOf_def worldImportedOther_def imported_loaded [OF n]
          del: trimConversationHistory.simps)
  then show ?thesis
    using imported_reachable [of "''u2''" sampleHistory]
    by (simp add: worldImportedOther_def sampleHistory_def)
qed

lemma imported_system_turns_are_sent:
  "reachable Extended (exchange Extended worldImportedSystem)
   \<and> length (trimConversationHistory Extended
               (historyOf (loaded Extended ''u1'' worldImportedSystem) ''u1''
                  @ [userTurn ''hello''])) = 13
   \<and> length (conversationOf (exchange Extended worldImportedSystem) ''u1'') = 14"
proof -
  have n: "replicate 12 systemTurn \<noteq> []" by simp
  have l: "historyOf (loaded Extended ''u1'' worldImportedSystem) ''u1'' = replicate 12 systemTurn"
    by (simp add: worldImportedSystem_def imported_loaded [OF n] historyOf_def)
  have t: "trimConversationHistory Extended (replicate 12 systemTurn @ [userTurn ''hello''])
             = replicate 12 systemTurn @ [userTurn ''hello'']"
    by (simp add: systemTurn_def userTurn_def MAX_HISTORY_LENGTH_def slice_js_def Let_def
          numeral_eq_Suc)
  have "cache (exchange Extended worldImportedSystem) =
          Some ((loaded Extended ''u1'' worldImportedSystem)(''u1'' \<mapsto>
             trimConversationHistory Extended
               (historyOf (loaded Extended ''u1'' worldImportedSystem) ''u1'' @ [userTurn ''hello''])
               @ [modelTurn (JStr ''ok'')]))"
    unfolding exchange_def worldImportedSystem_def
    by (rule success_cache [OF _ _ imported_aiCall [OF n]]) simp_all
  then have "conversationOf (exchange Extended worldImportedSystem) ''u1''
               = (replicate 12 systemTurn @ [userTurn ''hello'']) @ [modelTurn (JStr ''ok'')]"
    by (simp only: l t) (simp add: conversationOf_def historyOf_def)
  then have c: "length (conversationOf (exchange Extended worldImportedSystem) ''u1'') = 14"
    by simp
  have s: "length (trimConversationHistory Extended
               (historyOf (loaded Extended ''u1'' worldImportedSystem) ''u1''
                  @ [userTurn ''hello''])) = 13"
    by (simp only: l t) simp
  show ?thesis
    using imported_reachable [of "''u1''" "replicate 12 systemTurn",
        folded worldImportedSystem_def] s c
    by blast
qed

text \<open>
  C10, as the code has it. \<open>addMessageToHistory\<close> appends one turn with the given role and
  exactly one part holding the given text. Its two calls in \<open>processMessage\<close> pass the
  roles user and model: when the \<open>try\<close> body succeeds, the conversation saved for the user
  ends with the user turn of the message and the model turn of the reply. In the base file
  every turn of every conversation in a reachable cache has exactly one part. In both
  files \<open>processMessage\<close>, \<open>clearConversationHistory\<close> and the load with its restore,
  applied to a cache in which every turn has exactly one part, leave such a cache;
  \<open>importSession\<close> of the extended file does not.
\<close>

theorem appended_turns_have_one_part:
  "addMessageToHistory history r t = history @ [\<lparr>role = r, parts = [\<lparr>text = t\<rparr>]\<rparr>]
   \<and> (processMessage_try v net u m w = (Inr response, w') \<longrightarrow>
        (\<exists>st older. cache w' = Some st
           \<and> st u = Some (older @ [\<lparr>role = ''user'', parts = [\<lparr>text = JStr m\<rparr>]\<rparr>,
                                    \<lparr>role = ''model'', parts = [\<lparr>text = response\<rparr>]\<rparr>])))
   \<and> (reachable Base w \<and> cache w = Some st' \<and> st' u' = Some h' \<longrightarrow>
        list_all (\<lambda>turn. length (parts turn) = 1) h')
   \<and> (everyStored onePartEach w \<longrightarrow>
        everyStored onePartEach (snd (processMessage v net userId message w))
        \<and> everyStored onePartEach (clearConversationHistory v clearedId w)
        \<and> everyStored onePartEach (snd (getConversationHistory v loadedId w)))"
proof (intro conjI impI)
  show "addMessageToHistory history r t = history @ [\<lparr>role = r, parts = [\<lparr>text = t\<rparr>]\<rparr>]"
    by (simp add: addMessageToHistory_def)
next
  assume t: "processMessage_try v net u m w = (Inr response, w')"
  have "role (userTurn m) \<noteq> ''system''" by (simp add: userTurn_def)
  then obtain older where
    o: "trimConversationHistory v (historyOf (loaded v u w) u @ [userTurn m])
          = older @ [userTurn m]"
    using trim_keeps_newest by blast
  have "cache w' = Some ((loaded v u w)(u \<mapsto> (older @ [userTurn m]) @ [modelTurn response]))"
    using try_outcome [OF t] by (simp only: o)
  then show "\<exists>st older. cache w' = Some st
           \<and> st u = Some (older @ [\<lparr>role = ''user'', parts = [\<lparr>text = JStr m\<rparr>]\<rparr>,
                                    \<lparr>role = ''model'', parts = [\<lparr>text = response\<rparr>]\<rparr>])"
    by (auto simp add: userTurn_def modelTurn_def)
next
  assume a: "reachable Base w \<and> cache w = Some st' \<and> st' u' = Some h'"
  then have "everyStored onePartEach w"
    using reachable_Base_kept [OF _ refl onePartEach_kept] by blast
  then show "list_all (\<lambda>turn. length (parts turn) = 1) h'"
    using a by (auto simp add: everyStored_def onePartEach_def)
next
  assume "everyStored onePartEach w"
  then show "everyStored onePartEach (snd (processMessage v net userId message w))"
    by (rule step_kept [OF onePartEach_kept])
next
  assume "everyStored onePartEach w"
  then show "everyStored onePartEach (clearConversationHistory v clearedId w)"
    by (rule clear_kept [OF onePartEach_kept])
next
  assume "everyStored onePartEach w"
  then show "everyStored onePartEach (snd (getConversationHistory v loadedId w))"
    using loaded_kept [OF onePartEach_kept] by blast
qed

theorem appended_turns_have_one_part_witness:
  "fst (processMessage_try Base okReply ''u1'' ''hello'' world0) = Inr (JStr ''ok'')
   \<and> (\<exists>st older. cache (snd (processMessage_try Base okReply ''u1'' ''hello'' world0)) = Some st
         \<and> st ''u1'' = Some (older @ [\<lparr>role = ''user'', parts = [\<lparr>text = JStr ''hello''\<rparr>]\<rparr>,
                                        \<lparr>role = ''model'', parts = [\<lparr>text = JStr ''ok''\<rparr>]\<rparr>]))
   \<and> reachable Base sixExchanges
   \<and> (\<exists>st h. cache sixExchanges = Some st \<and> st ''u1'' = Some h
         \<and> list_all (\<lambda>turn. length (parts turn) = 1) h)
   \<and> everyStored onePartEach world0
   \<and> everyStored onePartEach
       (snd (processMessage Extended okReply (JStr ''u1'') (JStr ''hello'') world0))
   \<and> everyStored onePartEach (clearConversationHistory Extended (Some ''u1'') world0)
   \<and> everyStored onePartEach (snd (getConversationHistory Extended (Some ''u1'') world0))"
proof -
  have a: "aiCallResult Base okReply ''u1'' ''hello'' world0 = Inr (JStr ''ok'')"
    by (rule aiCall_returns [where net = okReply, OF world0_key world0_prompt _ okReply_text])
       (simp add: okReply_def)
  then have f: "fst (processMessage_try Base okReply ''u1'' ''hello'' world0) = Inr (JStr ''ok'')"
    by (simp add: try_result)
  then obtain w' where t: "processMessage_try Base okReply ''u1'' ''hello'' world0
                            = (Inr (JStr ''ok''), w')"
    by (cases "processMessage_try Base okReply ''u1'' ''hello'' world0") auto
  obtain st h where c: "cache sixExchanges = Some st" "st ''u1'' = Some h"
    using sixExchanges_cache by blast
  note T = appended_turns_have_one_part [where v = Base and net = okReply and u = "''u1''"
      and m = "''hello''" and w = world0 and response = "JStr ''ok''" and w' = w']
  have 1: "\<exists>st older. cache w' = Some st
         \<and> st ''u1'' = Some (older @ [\<lparr>role = ''user'', parts = [\<lparr>text = JStr ''hello''\<rparr>]\<rparr>,
                                        \<lparr>role = ''model'', parts = [\<lparr>text = JStr ''ok''\<rparr>]\<rparr>])"
    using T t by blast
  note U = appended_turns_have_one_part [where v = Base and w = sixExchanges and st' = st
      and u' = "''u1''" and h' = h]
  have 2: "list_all (\<lambda>turn. length (parts turn) = 1) h"
    using U c sixExchanges_reachable by blast
  have e: "everyStored onePartEach world0"
    by (simp add: everyStored_def world0_def)
  note V = appended_turns_have_one_part [where w = world0 and v = Extended and net = okReply
      and userId = "JStr ''u1''" and message = "JStr ''hello''" and clearedId = "Some ''u1''"
      and loadedId = "Some ''u1''"]
  have 3: "everyStored onePartEach
             (snd (processMessage Extended okReply (JStr ''u1'') (JStr ''hello'') world0))
         \<and> everyStored onePartEach (clearConversationHistory Extended (Some ''u1'') world0)
         \<and> everyStored onePartEach (snd (getConversationHistory Extended (Some ''u1'') world0))"
    using V e by blast
  show ?thesis using f 1 2 3 e c sixExchanges_reachable t by auto
qed

text \<open>
  C10 as stated fails in the extended file: a user turn with two parts, imported for user
  \<open>u1\<close>, is loaded by the next successful \<open>processMessage\<close> of \<open>u1\<close> and saved back in front
  of the two turns that the call appends.
\<close>

theorem imported_turn_with_two_parts_is_persisted:
  "reachable Extended (exchange Extended worldImportedParts)
   \<and> fst (processMessage Extended okReply (JStr ''u1'') (JStr ''hello'') worldImportedParts)
       = Inr (JStr ''ok'')
   \<and> conversationOf (exchange Extended worldImportedParts) ''u1''
       = [twoPartTurn, userTurn ''hello'', modelTurn (JStr ''ok'')]
   \<and> length (parts twoPartTurn) = 2"
proof -
  have n: "[twoPartTurn] \<noteq> []" by simp
  have a: "aiCallResult Extended okReply ''u1'' ''hello'' worldImportedParts = Inr (JStr ''ok'')"
    unfolding worldImportedParts_def by (rule imported_aiCall [OF n])
  have l: "historyOf (loaded Extended ''u1'' worldImportedParts) ''u1'' = [twoPartTurn]"
    by (simp add: worldImportedParts_def imported_loaded [OF n] historyOf_def)
  have t: "trimConversationHistory Extended ([twoPartTurn] @ [userTurn ''hello''])
             = [twoPartTurn, userTurn ''hello'']"
    by (simp add: MAX_HISTORY_LENGTH_def)
  have "cache (exchange Extended worldImportedParts) =
          Some ((loaded Extended ''u1'' worldImportedParts)(''u1'' \<mapsto>
             trimConversationHistory Extended
               (historyOf (loaded Extended ''u1'' worldImportedParts) ''u1'' @ [userTurn ''hello''])
               @ [modelTurn (JStr ''ok'')]))"
    unfolding exchange_def by (rule success_cache [OF _ _ a]) simp_all
  then have c: "conversationOf (exchange Extended worldImportedParts) ''u1''
               = [twoPartTurn, userTurn ''hello'', modelTurn (JStr ''ok'')]"
    by (simp only: l t) (simp add: conversationOf_def historyOf_def)
  have "fst (processMessage_try Extended okReply ''u1'' ''hello'' worldImportedParts)
          = Inr (JStr ''ok'')"
    using a by (simp add: try_result)
  then obtain w' where "processMessage_try Extended okReply ''u1'' ''hello'' worldImportedParts
                          = (Inr (JStr ''ok''), w')"
    by (cases "processMessage_try Extended okReply ''u1'' ''hello'' worldImportedParts") auto
  then have r: "fst (processMessage Extended okReply (JStr ''u1'') (JStr ''hello'')
                       worldImportedParts) = Inr (JStr ''ok'')"
    by (simp add: processMessage_valid)
  have p: "length (parts twoPartTurn) = 2" by (simp add: twoPartTurn_def)
  show ?thesis
    using c r p imported_reachable [of "''u1''" "[twoPartTurn]", folded worldImportedParts_def]
    by blast
qed

text \<open>
  In the extended file one call is enough to store eleven turns: with the cache entry
  expired and ten rows of the user in the log sheet, the ten restored turns, the new
  user turn trimmed to ten, and the reply.
\<close>

lemma restored_history_grows_to_eleven:
  "cache worldTenRows = None
   \<and> length (conversationOf (exchange Extended worldTenRows) ''u1'') = 11"
proof -
  have c: "cache worldTenRows = None" by (simp add: worldTenRows_def world0_def)
  have ns: "\<forall>t \<in> set (map userTurn
       [''m00'', ''m01'', ''m02'', ''m03'', ''m04'', ''m05'', ''m06'', ''m07'', ''m08'', ''m09'']
          @ [userTurn ''hello'']). role t \<noteq> ''system''"
    by (simp add: userTurn_def)
  have "length (trimConversationHistory Extended
          (historyOf (loaded Extended ''u1'' worldTenRows) ''u1'' @ [userTurn ''hello''])) = 10"
    by (simp only: worldTenRows_loaded trim_Extended_no_system [OF ns])
       (simp add: MAX_HISTORY_LENGTH_def)
  then show ?thesis
    using c success_cache [OF _ _ worldTenRows_aiCall]
    by (simp add: exchange_def conversationOf_def historyOf_def
          del: trimConversationHistory.simps)
qed

end
